theory Spec2Isabelle
  imports Main
begin

section \<open>JavaScript values, objects, Map and Set\<close>

text \<open>
  Cell values have the TypeScript type \<^verbatim>\<open>unknown\<close>. The store only compares them with
  \<^verbatim>\<open>===\<close>, so a value is modelled by what strict equality can tell apart: primitives by
  their value, objects by their reference. Numbers are the integers and \<^verbatim>\<open>NaN\<close>
  (which is not strictly equal to itself).
\<close>

datatype jsval =
    JUndefined
  | JNull
  | JBool bool
  | JNum int
  | JNaN
  | JStr string
  | JObj nat

definition strict_eq :: "jsval \<Rightarrow> jsval \<Rightarrow> bool" where
  "strict_eq a b = (a = b \<and> a \<noteq> JNaN)"

text \<open>
  A \<^verbatim>\<open>Map\<close> iterates in insertion order: \<^verbatim>\<open>set\<close> on a present key keeps its place,
  \<^verbatim>\<open>set\<close> on a new key appends, \<^verbatim>\<open>delete\<close> removes. It is an association list.
\<close>

type_synonym ('k, 'v) js_map = "('k \<times> 'v) list"

definition js_get :: "('k, 'v) js_map \<Rightarrow> 'k \<Rightarrow> 'v option" where
  "js_get m k = map_of m k"

definition js_has :: "('k, 'v) js_map \<Rightarrow> 'k \<Rightarrow> bool" where
  "js_has m k = (map_of m k \<noteq> None)"

fun js_set :: "'k \<Rightarrow> 'v \<Rightarrow> ('k, 'v) js_map \<Rightarrow> ('k, 'v) js_map" where
  "js_set k v [] = [(k, v)]"
| "js_set k v (e # m) = (if fst e = k then (k, v) # m else e # js_set k v m)"

definition js_delete :: "'k \<Rightarrow> ('k, 'v) js_map \<Rightarrow> ('k, 'v) js_map" where
  "js_delete k m = filter (\<lambda>e. fst e \<noteq> k) m"

definition js_keys :: "('k, 'v) js_map \<Rightarrow> 'k list" where
  "js_keys m = map fst m"

text \<open>A \<^verbatim>\<open>Set\<close> iterates in insertion order too: a list without repetitions.\<close>

definition set_has :: "'a list \<Rightarrow> 'a \<Rightarrow> bool" where
  "set_has s x = (x \<in> set s)"

definition set_add :: "'a \<Rightarrow> 'a list \<Rightarrow> 'a list" where
  "set_add x s = (if x \<in> set s then s else s @ [x])"

definition set_delete :: "'a \<Rightarrow> 'a list \<Rightarrow> 'a list" where
  "set_delete x s = filter (\<lambda>y. y \<noteq> x) s"

text \<open>
  A row is a \<^verbatim>\<open>Record<string, unknown>\<close>; reading a property that is not there gives
  \<^verbatim>\<open>undefined\<close>.
\<close>

type_synonym row = "(string, jsval) js_map"

definition row_get :: "row \<Rightarrow> string \<Rightarrow> jsval" where
  "row_get r c = (case map_of r c of None \<Rightarrow> JUndefined | Some v \<Rightarrow> v)"

subsection \<open>Strings: template literals, startsWith, split, parseInt\<close>

definition digit_char :: "nat \<Rightarrow> char" where
  "digit_char d = ''0123456789'' ! d"

fun string_of_nat :: "nat \<Rightarrow> string" where
  "string_of_nat n =
     (if n < 10 then [digit_char n]
      else string_of_nat (n div 10) @ [digit_char (n mod 10)])"

declare string_of_nat.simps [simp del]

text \<open>\<^verbatim>\<open>s.startsWith(p)\<close>\<close>

fun startsWith :: "string \<Rightarrow> string \<Rightarrow> bool" where
  "startsWith s [] = True"
| "startsWith [] (p # ps) = False"
| "startsWith (c # cs) (p # ps) = (c = p \<and> startsWith cs ps)"

text \<open>\<^verbatim>\<open>s.split(sep)\<close> for a one-character separator; the result is never empty.\<close>

fun split :: "char \<Rightarrow> string \<Rightarrow> string list" where
  "split sep [] = [[]]"
| "split sep (c # cs) =
     (if c = sep then [] # split sep cs
      else (case split sep cs of [] \<Rightarrow> [[c]] | seg # segs \<Rightarrow> (c # seg) # segs))"

definition digit_val :: "char \<Rightarrow> nat option" where
  "digit_val c = map_of (zip ''0123456789'' [0 ..< 10]) c"

fun parse_digits :: "nat \<Rightarrow> string \<Rightarrow> nat" where
  "parse_digits acc [] = acc"
| "parse_digits acc (c # cs) =
     (case digit_val c of None \<Rightarrow> acc | Some d \<Rightarrow> parse_digits (10 * acc + d) cs)"

text \<open>
  \<^verbatim>\<open>parseInt\<close> on the strings the store builds from a row index: the leading decimal
  digits, and \<^verbatim>\<open>NaN\<close> (here \<open>None\<close>) when the string does not start with a digit.
\<close>

definition parseInt :: "string \<Rightarrow> nat option" where
  "parseInt s =
     (case s of [] \<Rightarrow> None
      | c # cs \<Rightarrow> (case digit_val c of None \<Rightarrow> None | Some d \<Rightarrow> Some (parse_digits 0 s)))"

section \<open>Shared types\<close>

record EditContext =
  schema :: string
  table :: string
  primaryKeyColumns :: "string list"

record ColumnInfo =
  name :: string
  dataType :: string
  isNullable :: bool
  isPrimaryKey :: bool
  ordinalPosition :: nat

record PrimaryKeyValue =
  pk_column :: string
  pk_value :: jsval
  pk_dataType :: string

text \<open>
  The column of a change is \<^verbatim>\<open>key.split(':')[1]\<close>, which is \<^verbatim>\<open>undefined\<close> (\<open>None\<close>)
  for a key without a colon; the keys the store writes always have one.
\<close>

record CellChange =
  ch_column :: "string option"
  oldValue :: jsval
  newValue :: jsval
  ch_dataType :: string

datatype EditOperation =
    RowUpdate (op_id: string) (primaryKeys: "PrimaryKeyValue list")
      (changes: "CellChange list") (originalRow: row)
  | RowInsert (op_id: string) (ins_values: row) (ins_columns: "(string \<times> string) list")
  | RowDelete (op_id: string) (primaryKeys: "PrimaryKeyValue list") (originalRow: row)

record EditBatch =
  batch_context :: EditContext
  batch_operations :: "EditOperation list"

section \<open>The edit store\<close>

record NewRowDraft =
  draft_id :: string
  draft_values :: row

record TabEditState =
  isEditMode :: bool
  editContext :: "EditContext option"
  operations :: "EditOperation list"
  editingCell :: "(nat \<times> string) option"
  deletedRowIndices :: "nat list"
  newRows :: "NewRowDraft list"
  originalRows :: "(nat, row) js_map"
  modifiedCells :: "(string, jsval) js_map"

text \<open>The store's state is the map \<^verbatim>\<open>tabEdits\<close> from tab id to the tab's edit state.\<close>

type_synonym EditStoreState = "(string, TabEditState) js_map"

definition getInitialTabEditState :: TabEditState where
  "getInitialTabEditState =
     \<lparr>isEditMode = False, editContext = None, operations = [], editingCell = None,
      deletedRowIndices = [], newRows = [], originalRows = [], modifiedCells = []\<rparr>"

text \<open>\<^verbatim>\<open>newTabEdits.get(tabId) ?? getInitialTabEditState()\<close>\<close>

definition existingOrInitial :: "EditStoreState \<Rightarrow> string \<Rightarrow> TabEditState" where
  "existingOrInitial state tabId =
     (case js_get state tabId of None \<Rightarrow> getInitialTabEditState | Some e \<Rightarrow> e)"

text \<open>The template literals \<^verbatim>\<open>`${rowIndex}:`\<close> and \<^verbatim>\<open>`${rowIndex}:${columnName}`\<close>.\<close>

definition rowPrefix :: "nat \<Rightarrow> string" where
  "rowPrefix rowIndex = string_of_nat rowIndex @ '':''"

definition cellKey :: "nat \<Rightarrow> string \<Rightarrow> string" where
  "cellKey rowIndex columnName = string_of_nat rowIndex @ '':'' @ columnName"

text \<open>
  \<^verbatim>\<open>Array.from(cells.keys()).some((key) => key.startsWith(`${rowIndex}:`))\<close>
\<close>

definition hasModifications :: "(string, jsval) js_map \<Rightarrow> nat \<Rightarrow> bool" where
  "hasModifications cells rowIndex =
     list_ex (\<lambda>key. startsWith key (rowPrefix rowIndex)) (js_keys cells)"

definition enterEditMode :: "string \<Rightarrow> EditContext \<Rightarrow> EditStoreState \<Rightarrow> EditStoreState" where
  "enterEditMode tabId ctx state =
     js_set tabId ((existingOrInitial state tabId)\<lparr>isEditMode := True, editContext := Some ctx\<rparr>) state"

definition exitEditMode :: "string \<Rightarrow> EditStoreState \<Rightarrow> EditStoreState" where
  "exitEditMode tabId state =
     (case js_get state tabId of
        None \<Rightarrow> state
      | Some existing \<Rightarrow> js_set tabId (existing\<lparr>isEditMode := False, editingCell := None\<rparr>) state)"

definition isInEditMode :: "string \<Rightarrow> EditStoreState \<Rightarrow> bool" where
  "isInEditMode tabId state =
     (case js_get state tabId of None \<Rightarrow> False | Some t \<Rightarrow> isEditMode t)"

definition getEditContext :: "string \<Rightarrow> EditStoreState \<Rightarrow> EditContext option" where
  "getEditContext tabId state =
     (case js_get state tabId of None \<Rightarrow> None | Some t \<Rightarrow> editContext t)"

definition startCellEdit :: "string \<Rightarrow> nat \<Rightarrow> string \<Rightarrow> EditStoreState \<Rightarrow> EditStoreState" where
  "startCellEdit tabId rowIndex columnName state =
     js_set tabId ((existingOrInitial state tabId)\<lparr>editingCell := Some (rowIndex, columnName)\<rparr>) state"

definition cancelCellEdit :: "string \<Rightarrow> EditStoreState \<Rightarrow> EditStoreState" where
  "cancelCellEdit tabId state =
     (case js_get state tabId of
        None \<Rightarrow> state
      | Some existing \<Rightarrow> js_set tabId (existing\<lparr>editingCell := None\<rparr>) state)"

definition updateCellValue ::
  "string \<Rightarrow> nat \<Rightarrow> string \<Rightarrow> jsval \<Rightarrow> row \<Rightarrow> EditStoreState \<Rightarrow> EditStoreState" where
  "updateCellValue tabId rowIndex columnName val origRow state =
     (let existing = existingOrInitial state tabId;
          originalValue = row_get origRow columnName
      in if strict_eq val originalValue \<or> (strict_eq val (JStr []) \<and> strict_eq originalValue JNull)
         then
           (let newModifiedCells = js_delete (cellKey rowIndex columnName) (modifiedCells existing);
                hasOtherModifications = hasModifications newModifiedCells rowIndex;
                newOriginalRows =
                  (if \<not> hasOtherModifications then js_delete rowIndex (originalRows existing)
                   else originalRows existing)
            in js_set tabId
                 (existing\<lparr>modifiedCells := newModifiedCells, originalRows := newOriginalRows,
                    editingCell := None\<rparr>) state)
         else
           (let newModifiedCells = js_set (cellKey rowIndex columnName) val (modifiedCells existing);
                newOriginalRows =
                  (if \<not> js_has (originalRows existing) rowIndex
                   then js_set rowIndex origRow (originalRows existing)
                   else originalRows existing)
            in js_set tabId
                 (existing\<lparr>modifiedCells := newModifiedCells, originalRows := newOriginalRows,
                    editingCell := None\<rparr>) state))"

definition getModifiedCellValue :: "string \<Rightarrow> nat \<Rightarrow> string \<Rightarrow> EditStoreState \<Rightarrow> jsval option" where
  "getModifiedCellValue tabId rowIndex columnName state =
     (case js_get state tabId of
        None \<Rightarrow> None
      | Some tabEdit \<Rightarrow> js_get (modifiedCells tabEdit) (cellKey rowIndex columnName))"

definition isCellModified :: "string \<Rightarrow> nat \<Rightarrow> string \<Rightarrow> EditStoreState \<Rightarrow> bool" where
  "isCellModified tabId rowIndex columnName state =
     (case js_get state tabId of
        None \<Rightarrow> False
      | Some tabEdit \<Rightarrow> js_has (modifiedCells tabEdit) (cellKey rowIndex columnName))"

definition markRowForDeletion :: "string \<Rightarrow> nat \<Rightarrow> row \<Rightarrow> EditStoreState \<Rightarrow> EditStoreState" where
  "markRowForDeletion tabId rowIndex origRow state =
     (let existing = existingOrInitial state tabId;
          newDeletedIndices = set_add rowIndex (deletedRowIndices existing);
          newOriginalRows =
            (if \<not> js_has (originalRows existing) rowIndex
             then js_set rowIndex origRow (originalRows existing)
             else originalRows existing)
      in js_set tabId
           (existing\<lparr>deletedRowIndices := newDeletedIndices, originalRows := newOriginalRows\<rparr>)
           state)"

definition unmarkRowForDeletion :: "string \<Rightarrow> nat \<Rightarrow> EditStoreState \<Rightarrow> EditStoreState" where
  "unmarkRowForDeletion tabId rowIndex state =
     (case js_get state tabId of
        None \<Rightarrow> state
      | Some existing \<Rightarrow>
          js_set tabId
            (existing\<lparr>deletedRowIndices := set_delete rowIndex (deletedRowIndices existing)\<rparr>)
            state)"

definition isRowMarkedForDeletion :: "string \<Rightarrow> nat \<Rightarrow> EditStoreState \<Rightarrow> bool" where
  "isRowMarkedForDeletion tabId rowIndex state =
     (case js_get state tabId of
        None \<Rightarrow> False
      | Some tabEdit \<Rightarrow> set_has (deletedRowIndices tabEdit) rowIndex)"

text \<open>
  \<^verbatim>\<open>addNewRow\<close> draws its id from \<^verbatim>\<open>crypto.randomUUID()\<close>; the drawn value is the
  argument \<open>uuid\<close>, and it is also what the call returns.
\<close>

definition addNewRow :: "string \<Rightarrow> string \<Rightarrow> row \<Rightarrow> EditStoreState \<Rightarrow> EditStoreState" where
  "addNewRow uuid tabId defaultValues state =
     (let existing = existingOrInitial state tabId
      in js_set tabId
           (existing\<lparr>newRows := newRows existing @ [\<lparr>draft_id = uuid, draft_values = defaultValues\<rparr>]\<rparr>)
           state)"

definition updateNewRowValue ::
  "string \<Rightarrow> string \<Rightarrow> string \<Rightarrow> jsval \<Rightarrow> EditStoreState \<Rightarrow> EditStoreState" where
  "updateNewRowValue tabId rowId columnName val state =
     (case js_get state tabId of
        None \<Rightarrow> state
      | Some existing \<Rightarrow>
          js_set tabId
            (existing\<lparr>newRows :=
               map (\<lambda>r. if draft_id r = rowId
                         then r\<lparr>draft_values := js_set columnName val (draft_values r)\<rparr>
                         else r) (newRows existing)\<rparr>)
            state)"

definition removeNewRow :: "string \<Rightarrow> string \<Rightarrow> EditStoreState \<Rightarrow> EditStoreState" where
  "removeNewRow tabId rowId state =
     (case js_get state tabId of
        None \<Rightarrow> state
      | Some existing \<Rightarrow>
          js_set tabId
            (existing\<lparr>newRows := filter (\<lambda>r. draft_id r \<noteq> rowId) (newRows existing)\<rparr>) state)"

definition getNewRows :: "string \<Rightarrow> EditStoreState \<Rightarrow> NewRowDraft list" where
  "getNewRows tabId state =
     (case js_get state tabId of None \<Rightarrow> [] | Some tabEdit \<Rightarrow> newRows tabEdit)"

definition revertCellChange :: "string \<Rightarrow> nat \<Rightarrow> string \<Rightarrow> EditStoreState \<Rightarrow> EditStoreState" where
  "revertCellChange tabId rowIndex columnName state =
     (case js_get state tabId of
        None \<Rightarrow> state
      | Some existing \<Rightarrow>
          (let newModifiedCells = js_delete (cellKey rowIndex columnName) (modifiedCells existing);
               hasOtherModifications = hasModifications newModifiedCells rowIndex;
               newOriginalRows =
                 (if \<not> hasOtherModifications \<and> \<not> set_has (deletedRowIndices existing) rowIndex
                  then js_delete rowIndex (originalRows existing)
                  else originalRows existing)
           in js_set tabId
                (existing\<lparr>modifiedCells := newModifiedCells, originalRows := newOriginalRows\<rparr>)
                state))"

definition revertRowChanges :: "string \<Rightarrow> nat \<Rightarrow> EditStoreState \<Rightarrow> EditStoreState" where
  "revertRowChanges tabId rowIndex state =
     (case js_get state tabId of
        None \<Rightarrow> state
      | Some existing \<Rightarrow>
          js_set tabId
            (existing\<lparr>
               modifiedCells :=
                 filter (\<lambda>e. \<not> startsWith (fst e) (rowPrefix rowIndex)) (modifiedCells existing),
               deletedRowIndices := set_delete rowIndex (deletedRowIndices existing),
               originalRows := js_delete rowIndex (originalRows existing)\<rparr>)
            state)"

definition revertAllChanges :: "string \<Rightarrow> EditStoreState \<Rightarrow> EditStoreState" where
  "revertAllChanges tabId state =
     (case js_get state tabId of
        None \<Rightarrow> state
      | Some existing \<Rightarrow>
          js_set tabId
            (existing\<lparr>modifiedCells := [], deletedRowIndices := [], originalRows := [],
               newRows := [], operations := []\<rparr>)
            state)"

definition clearPendingChanges :: "string \<Rightarrow> EditStoreState \<Rightarrow> EditStoreState" where
  "clearPendingChanges tabId state =
     (case js_get state tabId of
        None \<Rightarrow> state
      | Some existing \<Rightarrow>
          js_set tabId
            (existing\<lparr>modifiedCells := [], deletedRowIndices := [], originalRows := [],
               newRows := [], operations := []\<rparr>)
            state)"

subsection \<open>Building the batch\<close>

text \<open>\<^verbatim>\<open>columns.find((c) => c.name === col)?.dataType ?? 'text'\<close>\<close>

definition columnDataType :: "ColumnInfo list \<Rightarrow> string \<Rightarrow> string" where
  "columnDataType cols col =
     (case find (\<lambda>c. name c = col) cols of None \<Rightarrow> ''text'' | Some colInfo \<Rightarrow> dataType colInfo)"

text \<open>
  The first loop: \<^verbatim>\<open>modifiedRowIndices.add(parseInt(key.split(':')[0]))\<close> for every key
  of \<^verbatim>\<open>modifiedCells\<close>, in the map's order. The result is a \<^verbatim>\<open>Set\<close>, so it keeps the
  order in which the row indices were first met.
\<close>

definition rowIndexOfKey :: "string \<Rightarrow> nat option" where
  "rowIndexOfKey key = parseInt (hd (split CHR '':'' key))"

definition modifiedRowIndices :: "string list \<Rightarrow> nat option list" where
  "modifiedRowIndices keys = foldl (\<lambda>acc key. set_add (rowIndexOfKey key) acc) [] keys"

text \<open>\<^verbatim>\<open>key.split(':')[1]\<close>\<close>

definition columnOfKey :: "string \<Rightarrow> string option" where
  "columnOfKey key = (case split CHR '':'' key of seg0 # seg1 # segs \<Rightarrow> Some seg1 | _ \<Rightarrow> None)"

text \<open>
  A column name that is \<^verbatim>\<open>undefined\<close> reads the property "undefined" of the row and
  matches no column.
\<close>

definition changeFor :: "row \<Rightarrow> ColumnInfo list \<Rightarrow> string \<Rightarrow> jsval \<Rightarrow> CellChange" where
  "changeFor origRow cols key val =
     (case columnOfKey key of
        None \<Rightarrow>
          \<lparr>ch_column = None, oldValue = row_get origRow ''undefined'', newValue = val,
           ch_dataType = ''text''\<rparr>
      | Some columnName \<Rightarrow>
          \<lparr>ch_column = Some columnName, oldValue = row_get origRow columnName, newValue = val,
           ch_dataType = columnDataType cols columnName\<rparr>)"

fun collectChanges :: "nat \<Rightarrow> row \<Rightarrow> ColumnInfo list \<Rightarrow> (string, jsval) js_map \<Rightarrow> CellChange list" where
  "collectChanges rowIndex origRow cols [] = []"
| "collectChanges rowIndex origRow cols (e # entries) =
     (if \<not> startsWith (fst e) (rowPrefix rowIndex) then collectChanges rowIndex origRow cols entries
      else changeFor origRow cols (fst e) (snd e) # collectChanges rowIndex origRow cols entries)"

definition primaryKeyValues :: "EditContext \<Rightarrow> ColumnInfo list \<Rightarrow> row \<Rightarrow> PrimaryKeyValue list" where
  "primaryKeyValues ctx cols origRow =
     map (\<lambda>pkCol. \<lparr>pk_column = pkCol, pk_value = row_get origRow pkCol,
                   pk_dataType = columnDataType cols pkCol\<rparr>)
       (primaryKeyColumns ctx)"

text \<open>
  The body of the second loop for one element of \<^verbatim>\<open>modifiedRowIndices\<close>: \<open>None\<close> where
  the source \<^verbatim>\<open>continue\<close>s or pushes nothing, and otherwise the update, whose id is the
  next value of \<^verbatim>\<open>crypto.randomUUID()\<close>. No row has the index \<^verbatim>\<open>NaN\<close>, so it is
  neither deleted nor snapshotted.
\<close>

definition buildUpdate ::
  "TabEditState \<Rightarrow> EditContext \<Rightarrow> ColumnInfo list \<Rightarrow> nat option \<Rightarrow> string \<Rightarrow> EditOperation option" where
  "buildUpdate tabEdit ctx cols r uuid =
     (case r of
        None \<Rightarrow> None
      | Some rowIndex \<Rightarrow>
          if set_has (deletedRowIndices tabEdit) rowIndex then None
          else (case js_get (originalRows tabEdit) rowIndex of
                  None \<Rightarrow> None
                | Some origRow \<Rightarrow>
                    (let chs = collectChanges rowIndex origRow cols (modifiedCells tabEdit)
                     in if length chs > 0
                        then Some (RowUpdate uuid (primaryKeyValues ctx cols origRow) chs origRow)
                        else None)))"

text \<open>
  \<^verbatim>\<open>crypto.randomUUID()\<close> is a source of values outside the program: \<open>rng\<close> is the sequence
  it returns, \<open>n\<close> the number of values drawn so far. Every function that draws returns the
  new count.
\<close>

fun updateLoop ::
  "(nat \<Rightarrow> string) \<Rightarrow> nat \<Rightarrow> TabEditState \<Rightarrow> EditContext \<Rightarrow> ColumnInfo list \<Rightarrow> nat option list
     \<Rightarrow> EditOperation list \<times> nat" where
  "updateLoop rng n tabEdit ctx cols [] = ([], n)"
| "updateLoop rng n tabEdit ctx cols (r # rs) =
     (case buildUpdate tabEdit ctx cols r (rng n) of
        None \<Rightarrow> updateLoop rng n tabEdit ctx cols rs
      | Some update \<Rightarrow>
          (case updateLoop rng (Suc n) tabEdit ctx cols rs of (ops, n') \<Rightarrow> (update # ops, n')))"

definition buildDelete ::
  "TabEditState \<Rightarrow> EditContext \<Rightarrow> ColumnInfo list \<Rightarrow> nat \<Rightarrow> string \<Rightarrow> EditOperation option" where
  "buildDelete tabEdit ctx cols rowIndex uuid =
     (case js_get (originalRows tabEdit) rowIndex of
        None \<Rightarrow> None
      | Some origRow \<Rightarrow> Some (RowDelete uuid (primaryKeyValues ctx cols origRow) origRow))"

fun deleteLoop ::
  "(nat \<Rightarrow> string) \<Rightarrow> nat \<Rightarrow> TabEditState \<Rightarrow> EditContext \<Rightarrow> ColumnInfo list \<Rightarrow> nat list
     \<Rightarrow> EditOperation list \<times> nat" where
  "deleteLoop rng n tabEdit ctx cols [] = ([], n)"
| "deleteLoop rng n tabEdit ctx cols (r # rs) =
     (case buildDelete tabEdit ctx cols r (rng n) of
        None \<Rightarrow> deleteLoop rng n tabEdit ctx cols rs
      | Some deleteOp \<Rightarrow>
          (case deleteLoop rng (Suc n) tabEdit ctx cols rs of (ops, n') \<Rightarrow> (deleteOp # ops, n')))"

definition buildInsert :: "ColumnInfo list \<Rightarrow> NewRowDraft \<Rightarrow> EditOperation" where
  "buildInsert cols newRow =
     RowInsert (draft_id newRow) (draft_values newRow) (map (\<lambda>c. (name c, dataType c)) cols)"

text \<open>
  \<open>None\<close> is \<^verbatim>\<open>null\<close>. The three loops push onto one array, one after the other.
\<close>

definition buildEditBatch ::
  "(nat \<Rightarrow> string) \<Rightarrow> nat \<Rightarrow> string \<Rightarrow> ColumnInfo list \<Rightarrow> EditStoreState \<Rightarrow> EditBatch option \<times> nat" where
  "buildEditBatch rng n tabId cols state =
     (case js_get state tabId of
        None \<Rightarrow> (None, n)
      | Some tabEdit \<Rightarrow>
          (case editContext tabEdit of
             None \<Rightarrow> (None, n)
           | Some ctx \<Rightarrow>
               (case updateLoop rng n tabEdit ctx cols
                       (modifiedRowIndices (js_keys (modifiedCells tabEdit))) of
                  (updates, n1) \<Rightarrow>
                    (case deleteLoop rng n1 tabEdit ctx cols (deletedRowIndices tabEdit) of
                       (deletes, n2) \<Rightarrow>
                         (let ops = updates @ deletes @ map (buildInsert cols) (newRows tabEdit)
                          in if length ops = 0 then (None, n2)
                             else (Some \<lparr>batch_context = ctx, batch_operations = ops\<rparr>, n2))))))"

subsection \<open>Sequences of store calls\<close>

datatype action =
    EnterEditMode string EditContext
  | ExitEditMode string
  | StartCellEdit string nat string
  | CancelCellEdit string
  | UpdateCellValue string nat string jsval row
  | MarkRowForDeletion string nat row
  | UnmarkRowForDeletion string nat
  | AddNewRow string string row
  | UpdateNewRowValue string string string jsval
  | RemoveNewRow string string
  | RevertCellChange string nat string
  | RevertRowChanges string nat
  | RevertAllChanges string
  | ClearPendingChanges string

fun applyAction :: "EditStoreState \<Rightarrow> action \<Rightarrow> EditStoreState" where
  "applyAction state (EnterEditMode tabId ctx) = enterEditMode tabId ctx state"
| "applyAction state (ExitEditMode tabId) = exitEditMode tabId state"
| "applyAction state (StartCellEdit tabId rowIndex columnName) =
     startCellEdit tabId rowIndex columnName state"
| "applyAction state (CancelCellEdit tabId) = cancelCellEdit tabId state"
| "applyAction state (UpdateCellValue tabId rowIndex columnName val origRow) =
     updateCellValue tabId rowIndex columnName val origRow state"
| "applyAction state (MarkRowForDeletion tabId rowIndex origRow) =
     markRowForDeletion tabId rowIndex origRow state"
| "applyAction state (UnmarkRowForDeletion tabId rowIndex) =
     unmarkRowForDeletion tabId rowIndex state"
| "applyAction state (AddNewRow uuid tabId defaultValues) = addNewRow uuid tabId defaultValues state"
| "applyAction state (UpdateNewRowValue tabId rowId columnName val) =
     updateNewRowValue tabId rowId columnName val state"
| "applyAction state (RemoveNewRow tabId rowId) = removeNewRow tabId rowId state"
| "applyAction state (RevertCellChange tabId rowIndex columnName) =
     revertCellChange tabId rowIndex columnName state"
| "applyAction state (RevertRowChanges tabId rowIndex) = revertRowChanges tabId rowIndex state"
| "applyAction state (RevertAllChanges tabId) = revertAllChanges tabId state"
| "applyAction state (ClearPendingChanges tabId) = clearPendingChanges tabId state"

text \<open>The store starts with \<^verbatim>\<open>tabEdits: new Map()\<close>.\<close>

definition runActions :: "action list \<Rightarrow> EditStoreState" where
  "runActions acts = foldl applyAction [] acts"

fun setsContextOf :: "string \<Rightarrow> action \<Rightarrow> bool" where
  "setsContextOf tabId (EnterEditMode t ctx) = (t = tabId)"
| "setsContextOf tabId a = False"

section \<open>The transaction executor\<close>

text \<open>
  The handler of \<^verbatim>\<open>db:execute\<close> imports \<^verbatim>\<open>validateOperation\<close>, \<^verbatim>\<open>buildQuery\<close> and
  \<^verbatim>\<open>buildPreviewSql\<close> from the module \<^verbatim>\<open>sql-builder\<close>. The handler is modelled for any
  three such functions: they are the fields of \<open>sql_builder\<close>. The validator returns
  \<^verbatim>\<open>{valid, error?}\<close>; the two builders run inside the handler's inner \<^verbatim>\<open>try\<close>, so
  they either return or throw, and a thrown value is kept as its message (\<open>Inl\<close>).
\<close>

record validation =
  valid :: bool
  error :: "string option"

record query =
  sql :: string
  params :: "jsval list"

record sql_builder =
  validateOperation :: "EditOperation \<Rightarrow> validation"
  buildQuery :: "EditOperation \<Rightarrow> EditContext \<Rightarrow> string \<Rightarrow> string + query"
  buildPreviewSql :: "EditOperation \<Rightarrow> EditContext \<Rightarrow> string \<Rightarrow> string + string"

record EditError =
  operationId :: string
  message :: "string option"

record EditResult =
  success :: bool
  rowsAffected :: nat
  executedSql :: "string list"
  errors :: "EditError list"

text \<open>\<^verbatim>\<open>{ success: true, data: result }\<close> and \<^verbatim>\<open>{ success: false, error: errorMessage }\<close>\<close>

datatype IpcResponse =
    IpcData EditResult
  | IpcError string

text \<open>
  The database client is outside the program. What the handler does with it is a sequence
  of calls; the client answers a call, given the calls made before it, by throwing
  (\<open>Inl\<close> of the message) or by returning (\<open>Inr\<close> of \<^verbatim>\<open>rowCount\<close>, which may be
  \<^verbatim>\<open>null\<close>).
\<close>

datatype call =
    Connect
  | Query string "jsval list"
  | End

type_synonym client = "call list \<Rightarrow> call \<Rightarrow> string + nat option"

record exec_state =
  calls :: "call list"
  result :: EditResult

definition clientCall :: "client \<Rightarrow> call \<Rightarrow> exec_state \<Rightarrow> (string + nat option) \<times> exec_state" where
  "clientCall cl c st = (cl (calls st) c, st\<lparr>calls := calls st @ [c]\<rparr>)"

text \<open>\<^verbatim>\<open>result.errors!.push({ operationId, message })\<close>\<close>

definition pushError :: "string \<Rightarrow> string option \<Rightarrow> exec_state \<Rightarrow> exec_state" where
  "pushError opId msg st =
     st\<lparr>result := (result st)\<lparr>errors := errors (result st) @ [\<lparr>operationId = opId, message = msg\<rparr>]\<rparr>\<rparr>"

text \<open>The body of the loop over \<^verbatim>\<open>batch.operations\<close>.\<close>

definition execOperation ::
  "sql_builder \<Rightarrow> client \<Rightarrow> EditContext \<Rightarrow> exec_state \<Rightarrow> EditOperation \<Rightarrow> exec_state" where
  "execOperation sb cl ctx st operation =
     (let v = validateOperation sb operation
      in if \<not> valid v then pushError (op_id operation) (error v) st
         else
           (case buildQuery sb operation ctx ''postgresql'' of
              Inl e \<Rightarrow> pushError (op_id operation) (Some e) st
            | Inr q \<Rightarrow>
                (case buildPreviewSql sb operation ctx ''postgresql'' of
                   Inl e \<Rightarrow> pushError (op_id operation) (Some e) st
                 | Inr previewSql \<Rightarrow>
                     (case clientCall cl (Query (sql q) (params q))
                             (st\<lparr>result := (result st)\<lparr>executedSql :=
                                   executedSql (result st) @ [previewSql]\<rparr>\<rparr>) of
                        (Inl e, st') \<Rightarrow> pushError (op_id operation) (Some e) st'
                      | (Inr rowCount, st') \<Rightarrow>
                          st'\<lparr>result := (result st')\<lparr>rowsAffected :=
                                rowsAffected (result st')
                                  + (case rowCount of None \<Rightarrow> 0 | Some k \<Rightarrow> k)\<rparr>\<rparr>))))"

definition runOperations ::
  "sql_builder \<Rightarrow> client \<Rightarrow> EditContext \<Rightarrow> exec_state \<Rightarrow> EditOperation list \<Rightarrow> exec_state" where
  "runOperations sb cl ctx st ops = foldl (execOperation sb cl ctx) st ops"

definition initialResult :: EditResult where
  "initialResult = \<lparr>success = True, rowsAffected = 0, executedSql = [], errors = []\<rparr>"

text \<open>\<^verbatim>\<open>// If any errors, rollback; otherwise commit\<close>\<close>

definition finishTransaction :: "client \<Rightarrow> exec_state \<Rightarrow> (string + unit) \<times> exec_state" where
  "finishTransaction cl st =
     (if length (errors (result st)) > 0
      then (case clientCall cl (Query ''ROLLBACK'' []) st of
              (Inl e, st') \<Rightarrow> (Inl e, st')
            | (Inr r, st') \<Rightarrow> (Inr (), st'\<lparr>result := (result st')\<lparr>success := False\<rparr>\<rparr>))
      else (case clientCall cl (Query ''COMMIT'' []) st of
              (Inl e, st') \<Rightarrow> (Inl e, st')
            | (Inr r, st') \<Rightarrow> (Inr (), st')))"

text \<open>The state in which the loop starts, once \<^verbatim>\<open>connect\<close> and \<^verbatim>\<open>BEGIN\<close> have returned.\<close>

definition inTransaction :: exec_state where
  "inTransaction = \<lparr>calls = [Connect, Query ''BEGIN'' []], result = initialResult\<rparr>"

text \<open>The \<^verbatim>\<open>try\<close> block: \<open>Inl\<close> is the exception that leaves it.\<close>

definition tryExecute :: "sql_builder \<Rightarrow> client \<Rightarrow> EditBatch \<Rightarrow> (string + EditResult) \<times> exec_state" where
  "tryExecute sb cl batch =
     (case clientCall cl Connect \<lparr>calls = [], result = initialResult\<rparr> of
        (Inl e, st1) \<Rightarrow> (Inl e, st1)
      | (Inr r1, st1) \<Rightarrow>
          (case clientCall cl (Query ''BEGIN'' []) st1 of
             (Inl e, st2) \<Rightarrow> (Inl e, st2)
           | (Inr r2, st2) \<Rightarrow>
               (case finishTransaction cl
                       (runOperations sb cl (batch_context batch) st2 (batch_operations batch)) of
                  (Inl e, st3) \<Rightarrow> (Inl e, st3)
                | (Inr u, st3) \<Rightarrow>
                    (case clientCall cl End st3 of
                       (Inl e, st4) \<Rightarrow> (Inl e, st4)
                     | (Inr r4, st4) \<Rightarrow> (Inr (result st4), st4)))))"

text \<open>
  The handler: the response, and the calls it has made on the client. In the \<^verbatim>\<open>catch\<close>
  block both calls end in \<^verbatim>\<open>.catch(() => {})\<close>: their answers are dropped.
\<close>

definition dbExecute :: "sql_builder \<Rightarrow> client \<Rightarrow> EditBatch \<Rightarrow> IpcResponse \<times> call list" where
  "dbExecute sb cl batch =
     (case tryExecute sb cl batch of
        (Inr r, st) \<Rightarrow> (IpcData r, calls st)
      | (Inl e, st) \<Rightarrow>
          (case clientCall cl (Query ''ROLLBACK'' []) st of
             (a1, st1) \<Rightarrow> (case clientCall cl End st1 of (a2, st2) \<Rightarrow> (IpcError e, calls st2))))"

section \<open>Notions used to state the properties\<close>

subsection \<open>Operations without their generated ids\<close>

text \<open>
  The ids of updates and deletes are drawn from \<^verbatim>\<open>crypto.randomUUID()\<close> when the batch is
  built; the id of an insert is the id of its draft. \<open>withoutId\<close> blanks the drawn ids only.
\<close>

fun withoutId :: "EditOperation \<Rightarrow> EditOperation" where
  "withoutId (RowUpdate i pks chs orig) = RowUpdate [] pks chs orig"
| "withoutId (RowDelete i pks orig) = RowDelete [] pks orig"
| "withoutId (RowInsert i vals cols) = RowInsert i vals cols"

definition withoutIds :: "EditBatch \<Rightarrow> EditBatch" where
  "withoutIds b = b\<lparr>batch_operations := map withoutId (batch_operations b)\<rparr>"

text \<open>
  The list the three loops of \<^verbatim>\<open>buildEditBatch\<close> produce, ids apart: one update for every
  element of \<^verbatim>\<open>modifiedRowIndices\<close> that yields one, in the order of that set; one delete for
  every element of \<^verbatim>\<open>deletedRowIndices\<close> that has a snapshot, in the order of that set; one
  insert for every draft, in the order of \<^verbatim>\<open>newRows\<close>.
\<close>

definition expectedOperations :: "TabEditState \<Rightarrow> EditContext \<Rightarrow> ColumnInfo list \<Rightarrow> EditOperation list" where
  "expectedOperations te ctx cols =
     List.map_filter (\<lambda>r. buildUpdate te ctx cols r []) (modifiedRowIndices (js_keys (modifiedCells te)))
     @ List.map_filter (\<lambda>r. buildDelete te ctx cols r []) (deletedRowIndices te)
     @ map (buildInsert cols) (newRows te)"

text \<open>The elements of a list in the order in which they first occur.\<close>

fun firstOccurrences :: "'a list \<Rightarrow> 'a list" where
  "firstOccurrences [] = []"
| "firstOccurrences (x # xs) = x # filter (\<lambda>y. y \<noteq> x) (firstOccurrences xs)"

text \<open>
  The order the specification words: the same loops run over the row indices in ascending
  order.
\<close>

definition buildEditBatchAscending ::
  "(nat \<Rightarrow> string) \<Rightarrow> nat \<Rightarrow> string \<Rightarrow> ColumnInfo list \<Rightarrow> EditStoreState \<Rightarrow> EditBatch option \<times> nat" where
  "buildEditBatchAscending rng n tabId cols state =
     (case js_get state tabId of
        None \<Rightarrow> (None, n)
      | Some tabEdit \<Rightarrow>
          (case editContext tabEdit of
             None \<Rightarrow> (None, n)
           | Some ctx \<Rightarrow>
               (case updateLoop rng n tabEdit ctx cols
                       (map Some (sort (List.map_filter id
                          (modifiedRowIndices (js_keys (modifiedCells tabEdit)))))) of
                  (updates, n1) \<Rightarrow>
                    (case deleteLoop rng n1 tabEdit ctx cols (sort (deletedRowIndices tabEdit)) of
                       (deletes, n2) \<Rightarrow>
                         (let ops = updates @ deletes @ map (buildInsert cols) (newRows tabEdit)
                          in if length ops = 0 then (None, n2)
                             else (Some \<lparr>batch_context = ctx, batch_operations = ops\<rparr>, n2))))))"

subsection \<open>Snapshots\<close>

text \<open>
  An update or a delete is the operation of a row index when the row has a snapshot, which
  the operation carries as its \<^verbatim>\<open>originalRow\<close>, and either the operation is an update, the
  row is among \<^verbatim>\<open>modifiedRowIndices\<close> and not deleted, and the changes are those of the
  row's modified cells; or the operation is a delete and the row is marked deleted.
\<close>

definition operationOfRow :: "TabEditState \<Rightarrow> ColumnInfo list \<Rightarrow> EditOperation \<Rightarrow> nat \<Rightarrow> bool" where
  "operationOfRow tabEdit cols operation rowIndex =
     (case js_get (originalRows tabEdit) rowIndex of
        None \<Rightarrow> False
      | Some snapshot \<Rightarrow>
          (case operation of
             RowUpdate i pks chs orig \<Rightarrow>
               Some rowIndex \<in> set (modifiedRowIndices (js_keys (modifiedCells tabEdit)))
               \<and> \<not> set_has (deletedRowIndices tabEdit) rowIndex
               \<and> chs = collectChanges rowIndex snapshot cols (modifiedCells tabEdit)
               \<and> orig = snapshot
           | RowInsert i vals cs \<Rightarrow> False
           | RowDelete i pks orig \<Rightarrow>
               set_has (deletedRowIndices tabEdit) rowIndex \<and> orig = snapshot))"

definition hasSnapshot :: "string \<Rightarrow> nat \<Rightarrow> EditStoreState \<Rightarrow> bool" where
  "hasSnapshot tabId rowIndex state =
     (case js_get state tabId of None \<Rightarrow> False | Some tabEdit \<Rightarrow> js_has (originalRows tabEdit) rowIndex)"

definition hasRowModification :: "string \<Rightarrow> nat \<Rightarrow> EditStoreState \<Rightarrow> bool" where
  "hasRowModification tabId rowIndex state =
     (case js_get state tabId of None \<Rightarrow> False | Some tabEdit \<Rightarrow> hasModifications (modifiedCells tabEdit) rowIndex)"

text \<open>
  The invariant of the snapshot map as the specification states it: a row has a snapshot
  exactly when it has a modified cell or a deletion mark.
\<close>

definition snapshotInvariant :: "string \<Rightarrow> nat \<Rightarrow> EditStoreState \<Rightarrow> bool" where
  "snapshotInvariant tabId rowIndex state =
     (hasSnapshot tabId rowIndex state
        = (hasRowModification tabId rowIndex state \<or> isRowMarkedForDeletion tabId rowIndex state))"

text \<open>
  Equality of a new value and an original value as the specification words it: strict
  equality, or \<^verbatim>\<open>null\<close> and the empty string in either order.
\<close>

definition nullEmptyEquivalent :: "jsval \<Rightarrow> jsval \<Rightarrow> bool" where
  "nullEmptyEquivalent a b = (strict_eq a b \<or> (a = JStr [] \<and> b = JNull) \<or> (a = JNull \<and> b = JStr []))"

subsection \<open>What the loop of the executor does with one operation\<close>

text \<open>
  The statement sent to the client for an operation, and the preview text pushed onto
  \<^verbatim>\<open>executedSql\<close>: both exist when the operation is valid and both builders return.
\<close>

definition statementOf :: "sql_builder \<Rightarrow> EditContext \<Rightarrow> EditOperation \<Rightarrow> call option" where
  "statementOf sb ctx operation =
     (if \<not> valid (validateOperation sb operation) then None
      else (case buildQuery sb operation ctx ''postgresql'' of
              Inl e \<Rightarrow> None
            | Inr q \<Rightarrow>
                (case buildPreviewSql sb operation ctx ''postgresql'' of
                   Inl e \<Rightarrow> None
                 | Inr previewSql \<Rightarrow> Some (Query (sql q) (params q)))))"

definition synthesizedSql :: "sql_builder \<Rightarrow> EditContext \<Rightarrow> EditOperation \<Rightarrow> string option" where
  "synthesizedSql sb ctx operation =
     (if \<not> valid (validateOperation sb operation) then None
      else (case buildQuery sb operation ctx ''postgresql'' of
              Inl e \<Rightarrow> None
            | Inr q \<Rightarrow>
                (case buildPreviewSql sb operation ctx ''postgresql'' of
                   Inl e \<Rightarrow> None
                 | Inr previewSql \<Rightarrow> Some previewSql)))"

text \<open>
  \<^verbatim>\<open>executedSql\<close> as the specification words it: each text paired with the id of its
  operation.
\<close>

definition executedSqlPairs :: "sql_builder \<Rightarrow> EditContext \<Rightarrow> EditOperation list \<Rightarrow> (string \<times> string) list" where
  "executedSqlPairs sb ctx ops =
     List.map_filter (\<lambda>operation. map_option (\<lambda>s. (op_id operation, s)) (synthesizedSql sb ctx operation)) ops"

text \<open>The statement that ends the transaction after the loop.\<close>

definition controlStatement :: "exec_state \<Rightarrow> call" where
  "controlStatement st = Query (if errors (result st) \<noteq> [] then ''ROLLBACK'' else ''COMMIT'') []"

section \<open>Concrete inputs\<close>

definition usersContext :: EditContext where
  "usersContext = \<lparr>schema = ''public'', table = ''users'', primaryKeyColumns = [''id'']\<rparr>"

definition usersColumns :: "ColumnInfo list" where
  "usersColumns =
     [\<lparr>name = ''id'', dataType = ''integer'', isNullable = False, isPrimaryKey = True, ordinalPosition = 0\<rparr>,
      \<lparr>name = ''name'', dataType = ''text'', isNullable = True, isPrimaryKey = False, ordinalPosition = 0\<rparr>]"

definition row2 :: row where "row2 = [(''id'', JNum 20), (''name'', JStr ''Bo'')]"

definition row5 :: row where "row5 = [(''id'', JNum 50), (''name'', JStr ''Eve'')]"

definition rowEmptyName :: row where "rowEmptyName = [(''id'', JNum 70), (''name'', JStr [])]"

text \<open>A sequence of distinct values for \<^verbatim>\<open>crypto.randomUUID()\<close>.\<close>

definition demoRng :: "nat \<Rightarrow> string" where
  "demoRng k = ''uuid-'' @ string_of_nat k"

definition editRow5ThenRow2 :: "action list" where
  "editRow5ThenRow2 =
     [EnterEditMode ''tab'' usersContext,
      UpdateCellValue ''tab'' 5 ''name'' (JStr ''Eva'') row5,
      UpdateCellValue ''tab'' 2 ''name'' (JStr ''Bob'') row2]"

definition scenarioB :: "action list" where
  "scenarioB =
     [EnterEditMode ''tab'' usersContext,
      UpdateCellValue ''tab'' 2 ''name'' (JStr ''Bob'') row2,
      MarkRowForDeletion ''tab'' 5 row5,
      AddNewRow ''new-1'' ''tab'' [(''name'', JStr ''Carl'')]]"

definition scenarioBOperations :: "EditOperation list" where
  "scenarioBOperations =
     [RowUpdate [] [\<lparr>pk_column = ''id'', pk_value = JNum 20, pk_dataType = ''integer''\<rparr>]
        [\<lparr>ch_column = Some ''name'', oldValue = JStr ''Bo'', newValue = JStr ''Bob'', ch_dataType = ''text''\<rparr>] row2,
      RowDelete [] [\<lparr>pk_column = ''id'', pk_value = JNum 50, pk_dataType = ''integer''\<rparr>] row5,
      RowInsert ''new-1'' [(''name'', JStr ''Carl'')] [(''id'', ''integer''), (''name'', ''text'')]]"

definition editPrimaryKey :: "action list" where
  "editPrimaryKey =
     [EnterEditMode ''tab'' usersContext, UpdateCellValue ''tab'' 5 ''id'' (JNum 99) row5]"

definition editPrimaryKeyUpdate :: EditOperation where
  "editPrimaryKeyUpdate =
     RowUpdate ''uuid-0'' [\<lparr>pk_column = ''id'', pk_value = JNum 50, pk_dataType = ''integer''\<rparr>]
       [\<lparr>ch_column = Some ''id'', oldValue = JNum 50, newValue = JNum 99, ch_dataType = ''integer''\<rparr>] row5"

definition pendingWithoutContext :: "action list" where
  "pendingWithoutContext =
     [UpdateCellValue ''tab'' 5 ''name'' (JStr ''Eva'') row5,
      MarkRowForDeletion ''tab'' 2 row2,
      AddNewRow ''new-1'' ''tab'' [(''name'', JStr ''Carl'')]]"

definition deletionThenSameValue :: "action list" where
  "deletionThenSameValue =
     [EnterEditMode ''tab'' usersContext,
      MarkRowForDeletion ''tab'' 5 row5,
      UpdateCellValue ''tab'' 5 ''name'' (JStr ''Eve'') row5]"

definition markThenUnmark :: "action list" where
  "markThenUnmark = [MarkRowForDeletion ''tab'' 5 row5, UnmarkRowForDeletion ''tab'' 5]"

text \<open>
  A cell holding the empty string is opened and saved unchanged. The cell editor hands its
  text to \<^verbatim>\<open>parseValue\<close>, which returns \<^verbatim>\<open>null\<close> for the empty string, so the store is
  called with \<^verbatim>\<open>null\<close>.
\<close>

definition saveUnchangedEmptyCell :: "action list" where
  "saveUnchangedEmptyCell =
     [EnterEditMode ''tab'' usersContext,
      UpdateCellValue ''tab'' 5 ''name'' JNull rowEmptyName]"

text \<open>
  Modelled from the spec: the module \<^verbatim>\<open>sql-builder\<close> is not among the sources. This builder
  stands in for it where a concrete one is needed: its validator makes the checks of section
  4.3 (an update or a delete needs a non-empty \<^verbatim>\<open>primaryKeys\<close> without \<^verbatim>\<open>undefined\<close>
  values, an insert needs a non-empty \<^verbatim>\<open>values\<close>), and its statements are shortened to
  their first words. No theorem about the executor depends on it: they hold for every builder.
\<close>

definition demoValidate :: "EditOperation \<Rightarrow> validation" where
  "demoValidate operation =
     (case operation of
        RowUpdate i pks chs orig \<Rightarrow>
          if pks = [] \<or> list_ex (\<lambda>pk. pk_value pk = JUndefined) pks
          then \<lparr>valid = False, error = Some ''Update requires primary key values''\<rparr>
          else \<lparr>valid = True, error = None\<rparr>
      | RowInsert i vals cols \<Rightarrow>
          if vals = [] then \<lparr>valid = False, error = Some ''Insert requires values''\<rparr>
          else \<lparr>valid = True, error = None\<rparr>
      | RowDelete i pks orig \<Rightarrow>
          if pks = [] \<or> list_ex (\<lambda>pk. pk_value pk = JUndefined) pks
          then \<lparr>valid = False, error = Some ''Delete requires primary key values''\<rparr>
          else \<lparr>valid = True, error = None\<rparr>)"

definition demoStatement :: "EditOperation \<Rightarrow> EditContext \<Rightarrow> string" where
  "demoStatement operation ctx =
     (case operation of
        RowUpdate i pks chs orig \<Rightarrow> ''UPDATE '' @ table ctx
      | RowInsert i vals cols \<Rightarrow> ''INSERT INTO '' @ table ctx
      | RowDelete i pks orig \<Rightarrow> ''DELETE FROM '' @ table ctx)"

definition demoParams :: "EditOperation \<Rightarrow> jsval list" where
  "demoParams operation =
     (case operation of
        RowUpdate i pks chs orig \<Rightarrow> map newValue chs @ map pk_value pks
      | RowInsert i vals cols \<Rightarrow> map snd vals
      | RowDelete i pks orig \<Rightarrow> map pk_value pks)"

definition demoBuilder :: sql_builder where
  "demoBuilder =
     \<lparr>validateOperation = demoValidate,
      buildQuery = (\<lambda>operation ctx dialect.
        Inr \<lparr>sql = demoStatement operation ctx, params = demoParams operation\<rparr>),
      buildPreviewSql = (\<lambda>operation ctx dialect. Inr (demoStatement operation ctx))\<rparr>"

text \<open>
  Clients: one that accepts everything, one whose table rejects the deletion of row 50,
  and one that loses its connection at a given call and answers none after it.
\<close>

definition isControl :: "call \<Rightarrow> bool" where
  "isControl c = (c = Connect \<or> c = End \<or> c = Query ''BEGIN'' [] \<or> c = Query ''COMMIT'' []
                  \<or> c = Query ''ROLLBACK'' [])"

definition okClient :: client where
  "okClient history c = (if isControl c then Inr None else Inr (Some 1))"

definition constraintClient :: client where
  "constraintClient history c =
     (if isControl c then Inr None
      else if c = Query ''DELETE FROM users'' [JNum 50] then Inl ''violates foreign key constraint''
      else Inr (Some 1))"

definition brokenClient :: "call \<Rightarrow> client" where
  "brokenClient failing history c =
     (if c = failing then Inl ''connection terminated''
      else if failing \<in> set history then Inl ''not connected''
      else okClient history c)"

definition opNoKeys :: EditOperation where
  "opNoKeys = RowUpdate ''op-1'' []
     [\<lparr>ch_column = Some ''name'', oldValue = JStr ''Bo'', newValue = JStr ''Bob'', ch_dataType = ''text''\<rparr>] row2"

definition opDelete :: EditOperation where
  "opDelete = RowDelete ''op-2'' [\<lparr>pk_column = ''id'', pk_value = JNum 50, pk_dataType = ''integer''\<rparr>] row5"

definition opInsert :: EditOperation where
  "opInsert = RowInsert ''op-3'' [(''name'', JStr ''Carl'')] [(''id'', ''integer''), (''name'', ''text'')]"

definition failingBatch :: EditBatch where
  "failingBatch = \<lparr>batch_context = usersContext, batch_operations = [opNoKeys, opDelete, opInsert]\<rparr>"

definition cleanBatch :: EditBatch where
  "cleanBatch = \<lparr>batch_context = usersContext, batch_operations = [opDelete, opInsert]\<rparr>"

definition deleteA :: EditBatch where
  "deleteA = \<lparr>batch_context = usersContext,
     batch_operations = [RowDelete ''op-a'' [\<lparr>pk_column = ''id'', pk_value = JNum 50, pk_dataType = ''integer''\<rparr>] row5]\<rparr>"

definition deleteB :: EditBatch where
  "deleteB = \<lparr>batch_context = usersContext,
     batch_operations = [RowDelete ''op-b'' [\<lparr>pk_column = ''id'', pk_value = JNum 50, pk_dataType = ''integer''\<rparr>] row5]\<rparr>"

section \<open>Map lemmas\<close>

lemma js_get_js_set: "js_get (js_set k v m) k' = (if k' = k then Some v else js_get m k')"
  by (induction m) (auto simp: js_get_def)

lemma js_has_js_delete: "js_has (js_delete k m) k' = (k' \<noteq> k \<and> js_has m k')"
  by (induction m) (auto simp: js_has_def js_delete_def)

section \<open>The keys of modifiedCells\<close>

text \<open>
  The store writes the key \<^verbatim>\<open>`${rowIndex}:${columnName}`\<close> and reads it back in three ways:
  \<^verbatim>\<open>parseInt(key.split(':')[0])\<close>, \<^verbatim>\<open>key.split(':')[1]\<close> and
  \<^verbatim>\<open>key.startsWith(`${rowIndex}:`)\<close>. On the keys it writes, the first gives the row index
  back, the second the column name when the name has no colon, and the third holds for the
  row index of the key and for no other.
\<close>

lemma digit_cases: "d < 10 \<Longrightarrow> d = 0 \<or> d = 1 \<or> d = 2 \<or> d = 3 \<or> d = 4 \<or> d = 5 \<or> d = 6 \<or> d = 7 \<or> d = 8 \<or> d = (9::nat)"
  by arith

lemma digit_val_digit_char: "d < 10 \<Longrightarrow> digit_val (digit_char d) = Some d"
  by (drule digit_cases) (elim disjE; hypsubst; code_simp)

lemma digit_char_not_colon: "d < 10 \<Longrightarrow> digit_char d \<noteq> CHR '':''"
  by (drule digit_cases) (elim disjE; hypsubst; code_simp)

lemma digit_val_colon: "digit_val CHR '':'' = None"
  by code_simp

lemma string_of_nat_no_colon: "CHR '':'' \<notin> set (string_of_nat n)"
proof (induction n rule: string_of_nat.induct)
  case (1 n)
  show ?case
  proof (cases "n < 10")
    case True
    then show ?thesis
      using digit_char_not_colon [of n] by (subst string_of_nat.simps) auto
  next
    case False
    then show ?thesis
      using 1 digit_char_not_colon [of "n mod 10"]
      by (subst string_of_nat.simps) auto
  qed
qed

lemma string_of_nat_not_Nil: "string_of_nat n \<noteq> []"
  by (subst string_of_nat.simps) simp

lemma parse_digits_string_of_nat:
  "parse_digits acc (string_of_nat n @ rest) =
     parse_digits (acc * 10 ^ length (string_of_nat n) + n) rest"
proof (induction n arbitrary: acc rest rule: string_of_nat.induct)
  case (1 n)
  show ?case
  proof (cases "n < 10")
    case True
    then have s: "string_of_nat n = [digit_char n]" by (subst string_of_nat.simps) simp
    show ?thesis using True by (simp add: s digit_val_digit_char mult.commute)
  next
    case False
    then have s: "string_of_nat n = string_of_nat (n div 10) @ [digit_char (n mod 10)]"
      by (subst string_of_nat.simps) simp
    have m: "n mod 10 < 10" by simp
    have "parse_digits acc (string_of_nat n @ rest) =
            parse_digits acc (string_of_nat (n div 10) @ (digit_char (n mod 10) # rest))"
      by (simp add: s)
    also have "\<dots> = parse_digits (acc * 10 ^ length (string_of_nat (n div 10)) + n div 10)
                        (digit_char (n mod 10) # rest)"
      using 1 [OF False] by simp
    also have "\<dots> = parse_digits (10 * (acc * 10 ^ length (string_of_nat (n div 10)) + n div 10) + n mod 10) rest"
      by (simp add: digit_val_digit_char [OF m])
    also have "10 * (acc * 10 ^ length (string_of_nat (n div 10)) + n div 10) + n mod 10
                 = acc * 10 ^ length (string_of_nat n) + n"
      by (simp add: s algebra_simps)
    finally show ?thesis .
  qed
qed

lemma string_of_nat_digits: "c \<in> set (string_of_nat n) \<Longrightarrow> digit_val c \<noteq> None"
proof (induction n rule: string_of_nat.induct)
  case (1 n)
  show ?case
  proof (cases "n < 10")
    case True
    then have "string_of_nat n = [digit_char n]" by (subst string_of_nat.simps) simp
    with "1.prems" True show ?thesis by (simp add: digit_val_digit_char)
  next
    case False
    then have "string_of_nat n = string_of_nat (n div 10) @ [digit_char (n mod 10)]"
      by (subst string_of_nat.simps) simp
    with "1.prems" have "c \<in> set (string_of_nat (n div 10)) \<or> c = digit_char (n mod 10)" by auto
    then show ?thesis
    proof
      assume "c \<in> set (string_of_nat (n div 10))"
      with False "1.IH" show ?thesis by blast
    next
      assume "c = digit_char (n mod 10)"
      then show ?thesis by (simp add: digit_val_digit_char)
    qed
  qed
qed

lemma parseInt_string_of_nat: "parseInt (string_of_nat n) = Some n"
proof -
  obtain c cs where s: "string_of_nat n = c # cs"
    using string_of_nat_not_Nil [of n] by (cases "string_of_nat n") auto
  have p: "parse_digits 0 (string_of_nat n) = n"
    using parse_digits_string_of_nat [of 0 n "[]"] by simp
  have "digit_val c \<noteq> None"
    using string_of_nat_digits [of c n] s by simp
  with p show ?thesis by (auto simp: parseInt_def s)
qed

lemma split_first_segment:
  "sep \<notin> set xs \<Longrightarrow> split sep (xs @ sep # ys) = xs # split sep ys"
  by (induction xs) auto

lemma split_no_separator: "sep \<notin> set xs \<Longrightarrow> split sep xs = [xs]"
  by (induction xs) auto

lemma cellKey_split:
  "split CHR '':'' (cellKey rowIndex columnName) = string_of_nat rowIndex # split CHR '':'' columnName"
proof -
  have "cellKey rowIndex columnName = string_of_nat rowIndex @ CHR '':'' # columnName"
    by (simp add: cellKey_def)
  then show ?thesis
    using split_first_segment [OF string_of_nat_no_colon, of rowIndex columnName] by simp
qed

lemma rowIndexOfKey_cellKey: "rowIndexOfKey (cellKey rowIndex columnName) = Some rowIndex"
  unfolding rowIndexOfKey_def cellKey_split by (simp add: parseInt_string_of_nat)

lemma columnOfKey_cellKey:
  assumes "CHR '':'' \<notin> set columnName"
  shows "columnOfKey (cellKey rowIndex columnName) = Some columnName"
  unfolding columnOfKey_def cellKey_split split_no_separator [OF assms] by simp

lemma string_of_nat_inj: "string_of_nat m = string_of_nat n \<Longrightarrow> m = n"
proof -
  assume "string_of_nat m = string_of_nat n"
  then have "parseInt (string_of_nat m) = parseInt (string_of_nat n)" by (rule arg_cong)
  then show "m = n" by (simp only: parseInt_string_of_nat option.inject)
qed

lemma startsWith_prefix_eq:
  "sep \<notin> set xs \<Longrightarrow> sep \<notin> set ys \<Longrightarrow> startsWith (xs @ sep # s) (ys @ [sep]) = (xs = ys)"
proof (induction xs arbitrary: ys)
  case Nil
  show ?case
  proof (cases ys)
    case Nil
    then show ?thesis by simp
  next
    case (Cons y ys')
    with Nil.prems show ?thesis by auto
  qed
next
  case (Cons x xs)
  show ?case
  proof (cases ys)
    case Nil
    with Cons.prems show ?thesis by auto
  next
    case (Cons y ys')
    with Cons.prems have "sep \<notin> set xs" and "sep \<notin> set ys'" by auto
    from Cons.IH [OF this] show ?thesis by (simp add: Cons)
  qed
qed

lemma startsWith_cellKey:
  "startsWith (cellKey r columnName) (rowPrefix r') = (r = r')"
proof -
  have "startsWith (string_of_nat r @ CHR '':'' # columnName) (string_of_nat r' @ [CHR '':''])
          = (string_of_nat r = string_of_nat r')"
    by (rule startsWith_prefix_eq) (rule string_of_nat_no_colon)+
  moreover have "(string_of_nat r = string_of_nat r') = (r = r')"
    using string_of_nat_inj by blast
  ultimately show ?thesis by (simp add: cellKey_def rowPrefix_def)
qed

section \<open>Properties of the edit store\<close>

subsection \<open>Reverting a cell by typing its original value\<close>

text \<open>
  What the guard of \<^verbatim>\<open>updateCellValue\<close> covers: a new value strictly equal (\<^verbatim>\<open>===\<close>) to
  \<^verbatim>\<open>originalRow[col]\<close>, and the empty string over an original \<^verbatim>\<open>null\<close>. After such a call
  the cell has no entry in \<^verbatim>\<open>modifiedCells\<close>, whatever the store held before.
\<close>

lemma updateCellValue_guard_removes_edit:
  assumes "strict_eq val (row_get origRow columnName)
           \<or> (val = JStr [] \<and> row_get origRow columnName = JNull)"
  shows "\<not> isCellModified tabId rowIndex columnName
             (updateCellValue tabId rowIndex columnName val origRow state)
       \<and> \<not> isCellModified tabId rowIndex columnName
             (runActions (acts @ [UpdateCellValue tabId rowIndex columnName val origRow]))"
proof -
  have one: "\<not> isCellModified tabId rowIndex columnName
               (updateCellValue tabId rowIndex columnName val origRow s)" for s
    using assms
    by (auto simp: isCellModified_def updateCellValue_def Let_def js_get_js_set js_has_js_delete
        strict_eq_def)
  have "runActions (acts @ [UpdateCellValue tabId rowIndex columnName val origRow])
          = updateCellValue tabId rowIndex columnName val origRow (runActions acts)"
    by (simp add: runActions_def)
  with one show ?thesis by simp
qed

text \<open>
  Claim C6 does not hold of the code. The guard, under the comment "If value is same as
  original, remove the modification", treats the empty string over an original \<^verbatim>\<open>null\<close>
  as no change and misses the other direction: \<^verbatim>\<open>null\<close> over an original empty string.
  That is the direction the cell editor sends, since \<^verbatim>\<open>parseValue\<close> turns the empty
  string into \<^verbatim>\<open>null\<close>. At \<^verbatim>\<open>updateCellValue('tab', 5, 'name', null, {id: 70, name: ''})\<close>
  the new value equals the original under the null/empty-string equivalence, yet the edit is
  recorded, and the batch built afterward holds an update of \<^verbatim>\<open>name\<close> from the empty
  string to \<^verbatim>\<open>null\<close>.
\<close>

theorem updateCellValue_null_over_empty_recorded:
  "nullEmptyEquivalent JNull (row_get rowEmptyName ''name'')
   \<and> isCellModified ''tab'' 5 ''name'' (updateCellValue ''tab'' 5 ''name'' JNull rowEmptyName [])
   \<and> isCellModified ''tab'' 5 ''name'' (runActions saveUnchangedEmptyCell)
   \<and> fst (buildEditBatch demoRng 0 ''tab'' usersColumns (runActions saveUnchangedEmptyCell)) =
       Some \<lparr>batch_context = usersContext,
         batch_operations =
           [RowUpdate ''uuid-0'' [\<lparr>pk_column = ''id'', pk_value = JNum 70, pk_dataType = ''integer''\<rparr>]
              [\<lparr>ch_column = Some ''name'', oldValue = JStr [], newValue = JNull, ch_dataType = ''text''\<rparr>]
              rowEmptyName]\<rparr>"
  by code_simp

subsection \<open>A tab whose context was never set\<close>

lemma getEditContext_applyAction:
  "\<not> setsContextOf tabId a \<Longrightarrow> getEditContext tabId (applyAction state a) = getEditContext tabId state"
  by (cases a)
     (auto simp: getEditContext_def enterEditMode_def exitEditMode_def startCellEdit_def
        cancelCellEdit_def updateCellValue_def markRowForDeletion_def unmarkRowForDeletion_def
        addNewRow_def updateNewRowValue_def removeNewRow_def revertCellChange_def
        revertRowChanges_def revertAllChanges_def clearPendingChanges_def
        existingOrInitial_def getInitialTabEditState_def Let_def js_get_js_set
        split: option.splits)

lemma getEditContext_foldl:
  "\<forall>a \<in> set acts. \<not> setsContextOf tabId a \<Longrightarrow>
   getEditContext tabId (foldl applyAction state acts) = getEditContext tabId state"
  by (induction acts arbitrary: state) (simp_all add: getEditContext_applyAction)

lemma buildEditBatch_no_context:
  "getEditContext tabId state = None \<Longrightarrow> buildEditBatch rng n tabId cols state = (None, n)"
  by (auto simp: getEditContext_def buildEditBatch_def split: option.splits)

text \<open>
  Claim C10. After any sequence of store calls in which \<^verbatim>\<open>enterEditMode\<close> is never called
  for a tab, \<^verbatim>\<open>buildEditBatch\<close> returns \<^verbatim>\<open>null\<close> for that tab, whatever cell
  modifications, deletion marks and new rows the calls have left.
\<close>

theorem buildEditBatch_null_without_context:
  assumes "\<forall>a \<in> set acts. \<not> setsContextOf tabId a"
  shows "fst (buildEditBatch rng n tabId cols (runActions acts)) = None"
proof -
  have "getEditContext tabId (runActions acts) = getEditContext tabId []"
    unfolding runActions_def using assms by (rule getEditContext_foldl)
  then have "getEditContext tabId (runActions acts) = None"
    by (simp add: getEditContext_def js_get_def)
  then show ?thesis by (simp add: buildEditBatch_no_context)
qed

theorem buildEditBatch_null_without_context_witness:
  "\<not> list_ex (setsContextOf ''tab'') pendingWithoutContext
   \<and> isCellModified ''tab'' 5 ''name'' (runActions pendingWithoutContext)
   \<and> isRowMarkedForDeletion ''tab'' 2 (runActions pendingWithoutContext)
   \<and> length (getNewRows ''tab'' (runActions pendingWithoutContext)) = 1
   \<and> fst (buildEditBatch demoRng 0 ''tab'' usersColumns (runActions pendingWithoutContext)) = None"
proof -
  have h: "\<forall>a \<in> set pendingWithoutContext. \<not> setsContextOf ''tab'' a"
    by (simp add: pendingWithoutContext_def)
  have l: "\<not> list_ex (setsContextOf ''tab'') pendingWithoutContext"
    using h by (simp add: list_ex_iff)
  have p: "isCellModified ''tab'' 5 ''name'' (runActions pendingWithoutContext)
   \<and> isRowMarkedForDeletion ''tab'' 2 (runActions pendingWithoutContext)
   \<and> length (getNewRows ''tab'' (runActions pendingWithoutContext)) = 1"
    by code_simp
  show ?thesis using l p buildEditBatch_null_without_context [OF h] by blast
qed

subsection \<open>The loops of buildEditBatch\<close>

lemma foldl_set_add:
  "foldl (\<lambda>acc x. set_add x acc) acc xs = acc @ filter (\<lambda>x. x \<notin> set acc) (firstOccurrences xs)"
proof (induction xs arbitrary: acc)
  case Nil
  show ?case by simp
next
  case (Cons x xs)
  show ?case
  proof (cases "x \<in> set acc")
    case True
    have "filter (\<lambda>y. y \<notin> set acc) (filter (\<lambda>y. y \<noteq> x) (firstOccurrences xs))
            = filter (\<lambda>y. y \<notin> set acc) (firstOccurrences xs)"
      using True by (auto intro: filter_cong)
    with True Cons [of acc] show ?thesis by (simp add: set_add_def)
  next
    case False
    have "filter (\<lambda>y. y \<notin> set (acc @ [x])) (firstOccurrences xs)
            = filter (\<lambda>y. y \<notin> set acc) (filter (\<lambda>y. y \<noteq> x) (firstOccurrences xs))"
      by (auto intro: filter_cong)
    with False Cons [of "acc @ [x]"] show ?thesis by (simp add: set_add_def)
  qed
qed

lemma modifiedRowIndices_firstOccurrences:
  "modifiedRowIndices keys = firstOccurrences (map rowIndexOfKey keys)"
proof -
  have "modifiedRowIndices keys = foldl (\<lambda>acc x. set_add x acc) [] (map rowIndexOfKey keys)"
    by (simp add: modifiedRowIndices_def foldl_map)
  then show ?thesis by (simp add: foldl_set_add)
qed

lemma buildUpdate_withoutId:
  "map_option withoutId (buildUpdate te ctx cols r u) = buildUpdate te ctx cols r []"
  by (auto simp: buildUpdate_def Let_def split: option.splits)

lemma buildDelete_withoutId:
  "map_option withoutId (buildDelete te ctx cols r u) = buildDelete te ctx cols r []"
  by (auto simp: buildDelete_def split: option.splits)

lemma updateLoop_withoutId:
  "map withoutId (fst (updateLoop rng n te ctx cols rs)) =
   List.map_filter (\<lambda>r. buildUpdate te ctx cols r []) rs"
proof (induction rs arbitrary: n)
  case Nil
  show ?case by simp
next
  case (Cons r rs)
  show ?case
  proof (cases "buildUpdate te ctx cols r (rng n)")
    case None
    then have "buildUpdate te ctx cols r [] = None"
      using buildUpdate_withoutId [of te ctx cols r "rng n"] by simp
    with None Cons show ?thesis by simp
  next
    case (Some u)
    then have "buildUpdate te ctx cols r [] = Some (withoutId u)"
      using buildUpdate_withoutId [of te ctx cols r "rng n"] by simp
    moreover obtain ops n' where "updateLoop rng (Suc n) te ctx cols rs = (ops, n')"
      by (cases "updateLoop rng (Suc n) te ctx cols rs")
    ultimately show ?thesis using Some Cons [of "Suc n"] by simp
  qed
qed

lemma deleteLoop_withoutId:
  "map withoutId (fst (deleteLoop rng n te ctx cols rs)) =
   List.map_filter (\<lambda>r. buildDelete te ctx cols r []) rs"
proof (induction rs arbitrary: n)
  case Nil
  show ?case by simp
next
  case (Cons r rs)
  show ?case
  proof (cases "buildDelete te ctx cols r (rng n)")
    case None
    then have "buildDelete te ctx cols r [] = None"
      using buildDelete_withoutId [of te ctx cols r "rng n"] by simp
    with None Cons show ?thesis by simp
  next
    case (Some u)
    then have "buildDelete te ctx cols r [] = Some (withoutId u)"
      using buildDelete_withoutId [of te ctx cols r "rng n"] by simp
    moreover obtain ops n' where "deleteLoop rng (Suc n) te ctx cols rs = (ops, n')"
      by (cases "deleteLoop rng (Suc n) te ctx cols rs")
    ultimately show ?thesis using Some Cons [of "Suc n"] by simp
  qed
qed

lemma withoutId_buildInsert: "withoutId (buildInsert cols d) = buildInsert cols d"
  by (simp add: buildInsert_def)

lemma buildEditBatch_char:
  assumes "js_get state tabId = Some te" and "editContext te = Some ctx"
  shows "case fst (buildEditBatch rng n tabId cols state) of
           None \<Rightarrow> expectedOperations te ctx cols = []
         | Some b \<Rightarrow> batch_context b = ctx \<and> map withoutId (batch_operations b) = expectedOperations te ctx cols
              \<and> expectedOperations te ctx cols \<noteq> []"
proof -
  obtain us n1 where u: "updateLoop rng n te ctx cols (modifiedRowIndices (js_keys (modifiedCells te))) = (us, n1)"
    by (cases "updateLoop rng n te ctx cols (modifiedRowIndices (js_keys (modifiedCells te)))")
  obtain ds n2 where d: "deleteLoop rng n1 te ctx cols (deletedRowIndices te) = (ds, n2)"
    by (cases "deleteLoop rng n1 te ctx cols (deletedRowIndices te)")
  have mu: "map withoutId us = List.map_filter (\<lambda>r. buildUpdate te ctx cols r []) (modifiedRowIndices (js_keys (modifiedCells te)))"
    using updateLoop_withoutId [of rng n te ctx cols "modifiedRowIndices (js_keys (modifiedCells te))"] u by simp
  have md: "map withoutId ds = List.map_filter (\<lambda>r. buildDelete te ctx cols r []) (deletedRowIndices te)"
    using deleteLoop_withoutId [of rng n1 te ctx cols "deletedRowIndices te"] d by simp
  have e: "map withoutId (us @ ds @ map (buildInsert cols) (newRows te)) = expectedOperations te ctx cols"
    by (simp add: expectedOperations_def mu md withoutId_buildInsert)
  show ?thesis
  proof (cases "us @ ds @ map (buildInsert cols) (newRows te) = []")
    case True
    then have "fst (buildEditBatch rng n tabId cols state) = None"
      using assms u d by (simp add: buildEditBatch_def)
    moreover have "expectedOperations te ctx cols = []" using e True by simp
    ultimately show ?thesis by simp
  next
    case False
    then have "fst (buildEditBatch rng n tabId cols state) =
        Some \<lparr>batch_context = ctx, batch_operations = us @ ds @ map (buildInsert cols) (newRows te)\<rparr>"
      using assms u d by (simp add: buildEditBatch_def Let_def)
    moreover have "expectedOperations te ctx cols \<noteq> []" using e False by (metis map_is_Nil_conv)
    ultimately show ?thesis using e by simp
  qed
qed

lemma buildUpdate_is_RowUpdate: "buildUpdate te ctx cols r u = Some op \<Longrightarrow> is_RowUpdate op"
  by (auto simp: buildUpdate_def Let_def split: option.splits if_splits)

lemma buildDelete_is_RowDelete: "buildDelete te ctx cols r u = Some op \<Longrightarrow> is_RowDelete op"
  by (auto simp: buildDelete_def split: option.splits)

lemma list_all_map_filter: "(\<And>x y. f x = Some y \<Longrightarrow> P y) \<Longrightarrow> list_all P (List.map_filter f xs)"
  by (induction xs) (auto split: option.splits)

lemma updateLoop_member:
  "op \<in> set (fst (updateLoop rng n te ctx cols rs)) \<Longrightarrow>
   \<exists>r u. r \<in> set rs \<and> buildUpdate te ctx cols r u = Some op"
proof (induction rs arbitrary: n)
  case Nil
  then show ?case by simp
next
  case (Cons r rs)
  show ?case
  proof (cases "buildUpdate te ctx cols r (rng n)")
    case None
    with Cons.prems have "op \<in> set (fst (updateLoop rng n te ctx cols rs))" by simp
    from Cons.IH [OF this] show ?thesis by auto
  next
    case (Some u)
    obtain ops n' where l: "updateLoop rng (Suc n) te ctx cols rs = (ops, n')"
      by (cases "updateLoop rng (Suc n) te ctx cols rs")
    with Some Cons.prems have "op = u \<or> op \<in> set (fst (updateLoop rng (Suc n) te ctx cols rs))"
      by auto
    then show ?thesis
    proof
      assume "op = u"
      with Some show ?thesis by auto
    next
      assume "op \<in> set (fst (updateLoop rng (Suc n) te ctx cols rs))"
      from Cons.IH [OF this] show ?thesis by auto
    qed
  qed
qed

lemma deleteLoop_member:
  "op \<in> set (fst (deleteLoop rng n te ctx cols rs)) \<Longrightarrow>
   \<exists>r u. r \<in> set rs \<and> buildDelete te ctx cols r u = Some op"
proof (induction rs arbitrary: n)
  case Nil
  then show ?case by simp
next
  case (Cons r rs)
  show ?case
  proof (cases "buildDelete te ctx cols r (rng n)")
    case None
    with Cons.prems have "op \<in> set (fst (deleteLoop rng n te ctx cols rs))" by simp
    from Cons.IH [OF this] show ?thesis by auto
  next
    case (Some u)
    obtain ops n' where l: "deleteLoop rng (Suc n) te ctx cols rs = (ops, n')"
      by (cases "deleteLoop rng (Suc n) te ctx cols rs")
    with Some Cons.prems have "op = u \<or> op \<in> set (fst (deleteLoop rng (Suc n) te ctx cols rs))"
      by auto
    then show ?thesis
    proof
      assume "op = u"
      with Some show ?thesis by auto
    next
      assume "op \<in> set (fst (deleteLoop rng (Suc n) te ctx cols rs))"
      from Cons.IH [OF this] show ?thesis by auto
    qed
  qed
qed

lemma buildUpdate_snapshot:
  assumes "buildUpdate te ctx cols r u = Some op"
    and "r \<in> set (modifiedRowIndices (js_keys (modifiedCells te)))"
  shows "\<exists>rowIndex snapshot. js_get (originalRows te) rowIndex = Some snapshot
      \<and> operationOfRow te cols op rowIndex
      \<and> primaryKeys op = primaryKeyValues ctx cols snapshot"
  using assms
  by (auto simp: buildUpdate_def operationOfRow_def Let_def split: option.splits if_splits)

lemma buildDelete_snapshot:
  assumes "buildDelete te ctx cols r u = Some op" and "r \<in> set (deletedRowIndices te)"
  shows "\<exists>rowIndex snapshot. js_get (originalRows te) rowIndex = Some snapshot
      \<and> operationOfRow te cols op rowIndex
      \<and> primaryKeys op = primaryKeyValues ctx cols snapshot"
  using assms
  by (auto simp: buildDelete_def operationOfRow_def set_has_def split: option.splits)

lemma buildEditBatch_Some:
  assumes "fst (buildEditBatch rng n tabId cols state) = Some batch"
  shows "\<exists>te ctx n1. js_get state tabId = Some te \<and> editContext te = Some ctx \<and> batch_context batch = ctx \<and>
     batch_operations batch =
       fst (updateLoop rng n te ctx cols (modifiedRowIndices (js_keys (modifiedCells te))))
       @ fst (deleteLoop rng n1 te ctx cols (deletedRowIndices te))
       @ map (buildInsert cols) (newRows te)"
proof -
  from assms obtain te where te: "js_get state tabId = Some te"
    by (auto simp: buildEditBatch_def split: option.splits)
  with assms obtain ctx where ctx: "editContext te = Some ctx"
    by (auto simp: buildEditBatch_def split: option.splits)
  obtain us n1 where u: "updateLoop rng n te ctx cols (modifiedRowIndices (js_keys (modifiedCells te))) = (us, n1)"
    by (cases "updateLoop rng n te ctx cols (modifiedRowIndices (js_keys (modifiedCells te)))")
  obtain ds n2 where d: "deleteLoop rng n1 te ctx cols (deletedRowIndices te) = (ds, n2)"
    by (cases "deleteLoop rng n1 te ctx cols (deletedRowIndices te)")
  from assms te ctx u d have "batch = \<lparr>batch_context = ctx, batch_operations = us @ ds @ map (buildInsert cols) (newRows te)\<rparr>"
    by (auto simp: buildEditBatch_def Let_def split: if_splits)
  with te ctx u d show ?thesis
    by (intro exI [of _ te] exI [of _ ctx] exI [of _ n1]) simp
qed

subsection \<open>The order of the operations\<close>

text \<open>
  Claim C3, as amended. For a tab whose context is set, the operations of the batch are,
  ids apart: first the updates, one for every row index of \<^verbatim>\<open>modifiedRowIndices\<close> that is
  not deleted and has a snapshot and a change, in the order in which the row indices first
  occur among the keys of \<^verbatim>\<open>modifiedCells\<close> (the insertion order of that map); then the
  deletes, one for every row index of \<^verbatim>\<open>deletedRowIndices\<close> that has a snapshot, in the
  insertion order of that set; then one insert for every draft, in the order of \<^verbatim>\<open>newRows\<close>.
  \<^verbatim>\<open>buildEditBatch\<close> returns \<^verbatim>\<open>null\<close> exactly when this list is empty.
\<close>

theorem buildEditBatch_operation_order:
  assumes "getEditContext tabId state = Some ctx"
    and "tabEdit = existingOrInitial state tabId"
    and "updates = List.map_filter (\<lambda>r. buildUpdate tabEdit ctx cols r [])
                     (modifiedRowIndices (js_keys (modifiedCells tabEdit)))"
    and "deletes = List.map_filter (\<lambda>r. buildDelete tabEdit ctx cols r []) (deletedRowIndices tabEdit)"
    and "inserts = map (buildInsert cols) (newRows tabEdit)"
  shows "list_all is_RowUpdate updates \<and> list_all is_RowDelete deletes \<and> list_all is_RowInsert inserts
     \<and> modifiedRowIndices (js_keys (modifiedCells tabEdit))
          = firstOccurrences (map rowIndexOfKey (js_keys (modifiedCells tabEdit)))
     \<and> (case fst (buildEditBatch rng n tabId cols state) of
          None \<Rightarrow> updates @ deletes @ inserts = []
        | Some batch \<Rightarrow>
            batch_context batch = ctx \<and> batch_operations batch \<noteq> []
            \<and> map withoutId (batch_operations batch) = updates @ deletes @ inserts)"
proof -
  from assms(1) obtain te where te: "js_get state tabId = Some te" and ctx: "editContext te = Some ctx"
    by (auto simp: getEditContext_def split: option.splits)
  from te assms(2) have eq: "tabEdit = te" by (simp add: existingOrInitial_def)
  have u: "list_all is_RowUpdate updates"
    unfolding assms(3) by (rule list_all_map_filter) (rule buildUpdate_is_RowUpdate)
  have d: "list_all is_RowDelete deletes"
    unfolding assms(4) by (rule list_all_map_filter) (rule buildDelete_is_RowDelete)
  have i: "list_all is_RowInsert inserts"
    unfolding assms(5) by (simp add: list_all_iff buildInsert_def)
  have e: "expectedOperations te ctx cols = updates @ deletes @ inserts"
    by (simp add: expectedOperations_def assms(3,4,5) eq)
  from buildEditBatch_char [OF te ctx, where rng = rng and n = n and cols = cols]
  have "case fst (buildEditBatch rng n tabId cols state) of
          None \<Rightarrow> updates @ deletes @ inserts = []
        | Some batch \<Rightarrow>
            batch_context batch = ctx \<and> batch_operations batch \<noteq> []
            \<and> map withoutId (batch_operations batch) = updates @ deletes @ inserts"
    unfolding e by (auto split: option.splits)
  moreover have "modifiedRowIndices (js_keys (modifiedCells tabEdit))
          = firstOccurrences (map rowIndexOfKey (js_keys (modifiedCells tabEdit)))"
    by (rule modifiedRowIndices_firstOccurrences)
  ultimately show ?thesis using u d i by (intro conjI)
qed

theorem buildEditBatch_operation_order_witness:
  "getEditContext ''tab'' (runActions scenarioB) = Some usersContext
   \<and> (case fst (buildEditBatch demoRng 0 ''tab'' usersColumns (runActions scenarioB)) of
         None \<Rightarrow> scenarioBOperations = []
       | Some batch \<Rightarrow>
            batch_context batch = usersContext \<and> batch_operations batch \<noteq> []
            \<and> map withoutId (batch_operations batch) = scenarioBOperations)"
proof -
  have h1: "getEditContext ''tab'' (runActions scenarioB) = Some usersContext"
    by code_simp
  have u: "List.map_filter (\<lambda>r. buildUpdate (existingOrInitial (runActions scenarioB) ''tab'') usersContext usersColumns r [])
             (modifiedRowIndices (js_keys (modifiedCells (existingOrInitial (runActions scenarioB) ''tab''))))
           @ List.map_filter (\<lambda>r. buildDelete (existingOrInitial (runActions scenarioB) ''tab'') usersContext usersColumns r [])
             (deletedRowIndices (existingOrInitial (runActions scenarioB) ''tab''))
           @ map (buildInsert usersColumns) (newRows (existingOrInitial (runActions scenarioB) ''tab''))
           = scenarioBOperations"
    by code_simp
  from buildEditBatch_operation_order [OF h1 refl refl refl refl, where rng = demoRng and n = 0 and cols = usersColumns]
  show ?thesis using h1 unfolding u by simp
qed

text \<open>
  Row 5 is edited before row 2: the update of row 5 comes first, and the batch is not the
  one whose updates are in ascending order of row index.
\<close>

theorem buildEditBatch_not_ascending:
  "fst (buildEditBatch demoRng 0 ''tab'' usersColumns (runActions editRow5ThenRow2)) =
     Some \<lparr>batch_context = usersContext,
       batch_operations =
         [RowUpdate ''uuid-0'' [\<lparr>pk_column = ''id'', pk_value = JNum 50, pk_dataType = ''integer''\<rparr>]
            [\<lparr>ch_column = Some ''name'', oldValue = JStr ''Eve'', newValue = JStr ''Eva'', ch_dataType = ''text''\<rparr>] row5,
          RowUpdate ''uuid-1'' [\<lparr>pk_column = ''id'', pk_value = JNum 20, pk_dataType = ''integer''\<rparr>]
            [\<lparr>ch_column = Some ''name'', oldValue = JStr ''Bo'', newValue = JStr ''Bob'', ch_dataType = ''text''\<rparr>] row2]\<rparr>
   \<and> fst (buildEditBatch demoRng 0 ''tab'' usersColumns (runActions editRow5ThenRow2))
       \<noteq> fst (buildEditBatchAscending demoRng 0 ''tab'' usersColumns (runActions editRow5ThenRow2))"
  by code_simp

subsection \<open>Primary keys\<close>

text \<open>
  Claim C5. Every update and every delete of a batch built by \<^verbatim>\<open>buildEditBatch\<close> is the
  operation of a row index with a stored snapshot; its \<^verbatim>\<open>originalRow\<close> is that snapshot, and
  its \<^verbatim>\<open>primaryKeys\<close> are the primary-key columns of the context with the values the
  snapshot has in them. The modified cells play no part in the keys, also when a primary-key
  column is edited.
\<close>

theorem primaryKeys_from_snapshot:
  assumes "fst (buildEditBatch rng n tabId cols state) = Some batch"
    and "op \<in> set (batch_operations batch)"
    and "\<not> is_RowInsert op"
  shows "\<exists>tabEdit ctx rowIndex snapshot.
           js_get state tabId = Some tabEdit \<and> editContext tabEdit = Some ctx \<and>
           js_get (originalRows tabEdit) rowIndex = Some snapshot \<and>
           operationOfRow tabEdit cols op rowIndex \<and>
           originalRow op = snapshot \<and>
           primaryKeys op =
             map (\<lambda>pkCol. \<lparr>pk_column = pkCol, pk_value = row_get snapshot pkCol,
                           pk_dataType = columnDataType cols pkCol\<rparr>) (primaryKeyColumns ctx)"
proof -
  from buildEditBatch_Some [OF assms(1)] obtain te ctx n1 where
    te: "js_get state tabId = Some te" and ctx: "editContext te = Some ctx" and
    ops: "batch_operations batch =
       fst (updateLoop rng n te ctx cols (modifiedRowIndices (js_keys (modifiedCells te))))
       @ fst (deleteLoop rng n1 te ctx cols (deletedRowIndices te))
       @ map (buildInsert cols) (newRows te)" by blast
  have "op \<notin> set (map (buildInsert cols) (newRows te))"
    using assms(3) by (auto simp: buildInsert_def)
  with assms(2) ops have "op \<in> set (fst (updateLoop rng n te ctx cols (modifiedRowIndices (js_keys (modifiedCells te)))))
      \<or> op \<in> set (fst (deleteLoop rng n1 te ctx cols (deletedRowIndices te)))" by auto
  then have "\<exists>rowIndex snapshot. js_get (originalRows te) rowIndex = Some snapshot
      \<and> operationOfRow te cols op rowIndex
      \<and> primaryKeys op = primaryKeyValues ctx cols snapshot"
  proof
    assume "op \<in> set (fst (updateLoop rng n te ctx cols (modifiedRowIndices (js_keys (modifiedCells te)))))"
    then obtain r u where "r \<in> set (modifiedRowIndices (js_keys (modifiedCells te)))"
      and "buildUpdate te ctx cols r u = Some op"
      using updateLoop_member by blast
    then show ?thesis using buildUpdate_snapshot by blast
  next
    assume "op \<in> set (fst (deleteLoop rng n1 te ctx cols (deletedRowIndices te)))"
    then obtain r u where "r \<in> set (deletedRowIndices te)" and "buildDelete te ctx cols r u = Some op"
      using deleteLoop_member by blast
    then show ?thesis using buildDelete_snapshot by blast
  qed
  then obtain rowIndex snapshot where s: "js_get (originalRows te) rowIndex = Some snapshot"
    and o: "operationOfRow te cols op rowIndex"
    and p: "primaryKeys op = primaryKeyValues ctx cols snapshot" by blast
  from s o assms(3) have "originalRow op = snapshot"
    by (cases op) (auto simp: operationOfRow_def)
  with te ctx s o p show ?thesis unfolding primaryKeyValues_def by blast
qed

text \<open>The primary key of row 5 is edited from 50 to 99; the update still addresses 50.\<close>

theorem primaryKeys_from_snapshot_witness:
  "fst (buildEditBatch demoRng 0 ''tab'' usersColumns (runActions editPrimaryKey))
     = Some \<lparr>batch_context = usersContext, batch_operations = [editPrimaryKeyUpdate]\<rparr>
   \<and> getModifiedCellValue ''tab'' 5 ''id'' (runActions editPrimaryKey) = Some (JNum 99)
   \<and> \<not> is_RowInsert editPrimaryKeyUpdate
   \<and> map pk_value (primaryKeys editPrimaryKeyUpdate) = [JNum 50]
   \<and> (\<exists>tabEdit ctx rowIndex snapshot.
           js_get (runActions editPrimaryKey) ''tab'' = Some tabEdit \<and> editContext tabEdit = Some ctx \<and>
           js_get (originalRows tabEdit) rowIndex = Some snapshot \<and>
           operationOfRow tabEdit usersColumns editPrimaryKeyUpdate rowIndex \<and>
           originalRow editPrimaryKeyUpdate = snapshot \<and>
           primaryKeys editPrimaryKeyUpdate =
             map (\<lambda>pkCol. \<lparr>pk_column = pkCol, pk_value = row_get snapshot pkCol,
                           pk_dataType = columnDataType usersColumns pkCol\<rparr>) (primaryKeyColumns ctx))"
proof -
  have h1: "fst (buildEditBatch demoRng 0 ''tab'' usersColumns (runActions editPrimaryKey))
     = Some \<lparr>batch_context = usersContext, batch_operations = [editPrimaryKeyUpdate]\<rparr>"
    by code_simp
  have h2: "editPrimaryKeyUpdate \<in> set (batch_operations \<lparr>batch_context = usersContext, batch_operations = [editPrimaryKeyUpdate]\<rparr>)"
    by simp
  have h3: "\<not> is_RowInsert editPrimaryKeyUpdate"
    by (simp add: editPrimaryKeyUpdate_def)
  have m: "getModifiedCellValue ''tab'' 5 ''id'' (runActions editPrimaryKey) = Some (JNum 99)"
    by code_simp
  have k: "map pk_value (primaryKeys editPrimaryKeyUpdate) = [JNum 50]"
    by (simp add: editPrimaryKeyUpdate_def)
  show ?thesis using h1 h3 m k primaryKeys_from_snapshot [OF h1 h2 h3] by blast
qed

subsection \<open>Building the batch twice\<close>

text \<open>
  Claim C7, as amended. Two calls of \<^verbatim>\<open>buildEditBatch\<close> on the same store and columns
  return batches that are equal in every field except the ids of their updates and deletes,
  which each call draws anew from \<^verbatim>\<open>crypto.randomUUID()\<close>; both return \<^verbatim>\<open>null\<close> or neither
  does.
\<close>

theorem buildEditBatch_equal_up_to_ids:
  "map_option withoutIds (fst (buildEditBatch rng n tabId cols state)) =
   map_option withoutIds (fst (buildEditBatch rng' n' tabId cols state))"
proof (cases "js_get state tabId")
  case None
  then show ?thesis by (simp add: buildEditBatch_def)
next
  case (Some te)
  show ?thesis
  proof (cases "editContext te")
    case None
    with Some show ?thesis by (simp add: buildEditBatch_def)
  next
    case (Some ctx)
    note c1 = buildEditBatch_char [OF \<open>js_get state tabId = Some te\<close> Some, where rng = rng and n = n and cols = cols]
    note c2 = buildEditBatch_char [OF \<open>js_get state tabId = Some te\<close> Some, where rng = rng' and n = n' and cols = cols]
    from c1 c2 show ?thesis
      by (auto simp: withoutIds_def split: option.splits)
  qed
qed

theorem buildEditBatch_equal_up_to_ids_witness:
  "map_option withoutIds (fst (buildEditBatch demoRng 0 ''tab'' usersColumns (runActions editRow5ThenRow2)))
     = map_option withoutIds (fst (buildEditBatch demoRng 2 ''tab'' usersColumns (runActions editRow5ThenRow2)))
   \<and> fst (buildEditBatch demoRng 0 ''tab'' usersColumns (runActions editRow5ThenRow2)) \<noteq> None"
proof -
  have "fst (buildEditBatch demoRng 0 ''tab'' usersColumns (runActions editRow5ThenRow2)) \<noteq> None"
    by code_simp
  with buildEditBatch_equal_up_to_ids [of demoRng 0 "''tab''" usersColumns "runActions editRow5ThenRow2" demoRng 2]
  show ?thesis by blast
qed

text \<open>
  The first call draws two ids, so the second starts at the third value of the sequence:
  its batch has other ids.
\<close>

theorem buildEditBatch_ids_differ:
  "snd (buildEditBatch demoRng 0 ''tab'' usersColumns (runActions editRow5ThenRow2)) = 2
   \<and> fst (buildEditBatch demoRng 0 ''tab'' usersColumns (runActions editRow5ThenRow2))
       \<noteq> fst (buildEditBatch demoRng 2 ''tab'' usersColumns (runActions editRow5ThenRow2))"
  by code_simp

subsection \<open>Snapshots and deletion marks\<close>

text \<open>
  Claim C4 does not hold of the code. Marking row 5 for deletion and unmarking it leaves
  the snapshot of row 5 behind, with no modification and no deletion mark for the row:
  \<^verbatim>\<open>unmarkRowForDeletion\<close> never touches \<^verbatim>\<open>originalRows\<close>. Marking row 5 for deletion
  and then saving the unchanged value of one of its cells removes the snapshot while the
  deletion mark remains: \<^verbatim>\<open>updateCellValue\<close> does not look at \<^verbatim>\<open>deletedRowIndices\<close>, as
  \<^verbatim>\<open>revertCellChange\<close> does. The row is then still marked, and \<^verbatim>\<open>buildEditBatch\<close>
  builds no delete for it.
\<close>

theorem snapshot_invariant_broken:
  "\<not> snapshotInvariant ''tab'' 5 (runActions markThenUnmark)
   \<and> hasSnapshot ''tab'' 5 (runActions markThenUnmark)
   \<and> \<not> hasRowModification ''tab'' 5 (runActions markThenUnmark)
   \<and> \<not> isRowMarkedForDeletion ''tab'' 5 (runActions markThenUnmark)
   \<and> \<not> snapshotInvariant ''tab'' 5 (runActions deletionThenSameValue)
   \<and> isRowMarkedForDeletion ''tab'' 5 (runActions deletionThenSameValue)
   \<and> \<not> hasSnapshot ''tab'' 5 (runActions deletionThenSameValue)
   \<and> fst (buildEditBatch demoRng 0 ''tab'' usersColumns (runActions deletionThenSameValue)) = None"
  by code_simp

section \<open>Properties of the transaction executor\<close>

subsection \<open>The loop\<close>

lemma pushError_errors:
  "errors (result (pushError i m st)) = errors (result st) @ [\<lparr>operationId = i, message = m\<rparr>]"
  by (simp add: pushError_def)

lemma pushError_calls: "calls (pushError i m st) = calls st"
  by (simp add: pushError_def)

lemma pushError_executedSql: "executedSql (result (pushError i m st)) = executedSql (result st)"
  by (simp add: pushError_def)

lemma runOperations_Nil: "runOperations sb cl ctx st [] = st"
  by (simp add: runOperations_def)

lemma runOperations_Cons:
  "runOperations sb cl ctx st (operation # ops) = runOperations sb cl ctx (execOperation sb cl ctx st operation) ops"
  by (simp add: runOperations_def)

lemma runOperations_append:
  "runOperations sb cl ctx st (xs @ ys) = runOperations sb cl ctx (runOperations sb cl ctx st xs) ys"
  by (simp add: runOperations_def)

lemma execOperation_calls:
  "calls (execOperation sb cl ctx st operation) =
     calls st @ (case statementOf sb ctx operation of None \<Rightarrow> [] | Some c \<Rightarrow> [c])"
  by (auto simp: execOperation_def statementOf_def pushError_def clientCall_def Let_def
      split: sum.splits)

lemma execOperation_executedSql:
  "executedSql (result (execOperation sb cl ctx st operation)) =
     executedSql (result st) @ (case synthesizedSql sb ctx operation of None \<Rightarrow> [] | Some s \<Rightarrow> [s])"
  by (auto simp: execOperation_def synthesizedSql_def pushError_def clientCall_def Let_def
      split: sum.splits)

lemma execOperation_success:
  "success (result (execOperation sb cl ctx st operation)) = success (result st)"
  by (auto simp: execOperation_def pushError_def clientCall_def Let_def split: sum.splits)

lemma execOperation_errors:
  "\<exists>rest. errors (result (execOperation sb cl ctx st operation)) = errors (result st) @ rest"
  by (auto simp: execOperation_def pushError_def clientCall_def Let_def split: sum.splits)

lemma runOperations_calls:
  "calls (runOperations sb cl ctx st ops) = calls st @ List.map_filter (statementOf sb ctx) ops"
  by (induction ops arbitrary: st)
     (auto simp: runOperations_Nil runOperations_Cons execOperation_calls split: option.splits)

lemma runOperations_executedSql:
  "executedSql (result (runOperations sb cl ctx st ops)) =
     executedSql (result st) @ List.map_filter (synthesizedSql sb ctx) ops"
  by (induction ops arbitrary: st)
     (auto simp: runOperations_Nil runOperations_Cons execOperation_executedSql split: option.splits)

lemma runOperations_success:
  "success (result (runOperations sb cl ctx st ops)) = success (result st)"
  by (induction ops arbitrary: st)
     (auto simp: runOperations_Nil runOperations_Cons execOperation_success)

lemma runOperations_errors:
  "\<exists>rest. errors (result (runOperations sb cl ctx st ops)) = errors (result st) @ rest"
proof (induction ops arbitrary: st)
  case Nil
  show ?case by (simp add: runOperations_Nil)
next
  case (Cons operation ops)
  obtain r1 where r1: "errors (result (execOperation sb cl ctx st operation)) = errors (result st) @ r1"
    using execOperation_errors by blast
  obtain r2 where "errors (result (runOperations sb cl ctx (execOperation sb cl ctx st operation) ops))
      = errors (result (execOperation sb cl ctx st operation)) @ r2"
    using Cons.IH by blast
  with r1 show ?case by (simp add: runOperations_Cons)
qed

lemma execOperation_invalid:
  "\<not> valid (validateOperation sb operation) \<Longrightarrow>
   execOperation sb cl ctx st operation = pushError (op_id operation) (error (validateOperation sb operation)) st"
  by (simp add: execOperation_def)

lemma execOperation_statement_fails:
  assumes "valid (validateOperation sb operation)"
    and "buildQuery sb operation ctx ''postgresql'' = Inr q"
    and "buildPreviewSql sb operation ctx ''postgresql'' = Inr p"
    and "cl (calls st) (Query (sql q) (params q)) = Inl e"
  shows "errors (result (execOperation sb cl ctx st operation)) =
           errors (result st) @ [\<lparr>operationId = op_id operation, message = Some e\<rparr>]
       \<and> rowsAffected (result (execOperation sb cl ctx st operation)) = rowsAffected (result st)"
  using assms by (simp add: execOperation_def pushError_def clientCall_def)

lemma runOperations_invalid_recorded:
  assumes "operation \<in> set ops" and "\<not> valid (validateOperation sb operation)"
  shows "\<lparr>operationId = op_id operation, message = error (validateOperation sb operation)\<rparr>
           \<in> set (errors (result (runOperations sb cl ctx st ops)))"
  using assms(1)
proof (induction ops arbitrary: st)
  case Nil
  then show ?case by simp
next
  case (Cons x xs)
  show ?case
  proof (cases "operation = x")
    case True
    have "errors (result (execOperation sb cl ctx st x)) =
            errors (result st) @ [\<lparr>operationId = op_id operation, message = error (validateOperation sb operation)\<rparr>]"
      using True assms(2) by (simp add: execOperation_invalid pushError_errors)
    moreover obtain rest where
      "errors (result (runOperations sb cl ctx (execOperation sb cl ctx st x) xs)) =
         errors (result (execOperation sb cl ctx st x)) @ rest"
      using runOperations_errors by blast
    ultimately show ?thesis by (simp add: runOperations_Cons)
  next
    case False
    with Cons.prems have "operation \<in> set xs" by simp
    from Cons.IH [OF this] show ?thesis by (simp add: runOperations_Cons)
  qed
qed

lemma inTransaction_success: "success (result (runOperations sb cl ctx inTransaction ops))"
  by (simp add: runOperations_success inTransaction_def initialResult_def)

text \<open>
  Claim C2. Take any operation of the batch, with the operations before it and after it.
  The loop goes on with every operation after it, from the state in which it left the
  loop; the statements sent to the client are those of all valid operations of the batch,
  in batch order, whatever failed; every invalid operation of the batch has its error in
  the final list; errors once recorded stay. If the operation is invalid, its error
  \<^verbatim>\<open>{operationId, message}\<close> is appended and nothing is sent to the client or added to
  \<^verbatim>\<open>executedSql\<close>. If it is valid and the client throws on its statement, the statement has
  been sent and \<^verbatim>\<open>{operationId, message}\<close> with the thrown message is appended.
\<close>

theorem operation_errors_do_not_stop_loop:
  assumes "ops = pre @ operation # post"
    and "before = runOperations sb cl ctx st pre"
    and "after = execOperation sb cl ctx before operation"
    and "final = runOperations sb cl ctx st ops"
  shows "final = runOperations sb cl ctx after post
    \<and> calls final = calls st @ List.map_filter (statementOf sb ctx) ops
    \<and> (\<forall>x \<in> set ops. \<not> valid (validateOperation sb x) \<longrightarrow>
          \<lparr>operationId = op_id x, message = error (validateOperation sb x)\<rparr> \<in> set (errors (result final)))
    \<and> (\<exists>rest. errors (result final) = errors (result after) @ rest)
    \<and> (\<not> valid (validateOperation sb operation) \<longrightarrow>
          calls after = calls before
          \<and> executedSql (result after) = executedSql (result before)
          \<and> errors (result after) = errors (result before)
               @ [\<lparr>operationId = op_id operation, message = error (validateOperation sb operation)\<rparr>])
    \<and> (\<forall>q p e. valid (validateOperation sb operation) \<longrightarrow>
          buildQuery sb operation ctx ''postgresql'' = Inr q \<longrightarrow>
          buildPreviewSql sb operation ctx ''postgresql'' = Inr p \<longrightarrow>
          cl (calls before) (Query (sql q) (params q)) = Inl e \<longrightarrow>
          calls after = calls before @ [Query (sql q) (params q)]
          \<and> errors (result after) = errors (result before)
               @ [\<lparr>operationId = op_id operation, message = Some e\<rparr>])"
proof -
  have 1: "final = runOperations sb cl ctx after post"
    by (simp add: assms runOperations_append runOperations_Cons)
  have 2: "calls final = calls st @ List.map_filter (statementOf sb ctx) ops"
    unfolding assms(4) by (rule runOperations_calls)
  have 3: "\<forall>x \<in> set ops. \<not> valid (validateOperation sb x) \<longrightarrow>
          \<lparr>operationId = op_id x, message = error (validateOperation sb x)\<rparr> \<in> set (errors (result final))"
    unfolding assms(4) using runOperations_invalid_recorded by blast
  have 4: "\<exists>rest. errors (result final) = errors (result after) @ rest"
    unfolding 1 by (rule runOperations_errors)
  have 5: "\<not> valid (validateOperation sb operation) \<longrightarrow>
          calls after = calls before
          \<and> executedSql (result after) = executedSql (result before)
          \<and> errors (result after) = errors (result before)
               @ [\<lparr>operationId = op_id operation, message = error (validateOperation sb operation)\<rparr>]"
    by (simp add: assms(3) execOperation_invalid pushError_errors pushError_calls pushError_executedSql)
  have 6: "\<forall>q p e. valid (validateOperation sb operation) \<longrightarrow>
          buildQuery sb operation ctx ''postgresql'' = Inr q \<longrightarrow>
          buildPreviewSql sb operation ctx ''postgresql'' = Inr p \<longrightarrow>
          cl (calls before) (Query (sql q) (params q)) = Inl e \<longrightarrow>
          calls after = calls before @ [Query (sql q) (params q)]
          \<and> errors (result after) = errors (result before)
               @ [\<lparr>operationId = op_id operation, message = Some e\<rparr>]"
    by (simp add: assms(3) execOperation_calls statementOf_def execOperation_statement_fails)
  show ?thesis by (intro conjI 1 2 3 4 5 6)
qed

theorem operation_errors_do_not_stop_loop_witness:
  "\<not> valid (validateOperation demoBuilder opNoKeys)
   \<and> errors (result (execOperation demoBuilder constraintClient usersContext inTransaction opNoKeys))
       = errors (result inTransaction)
           @ [\<lparr>operationId = ''op-1'', message = Some ''Update requires primary key values''\<rparr>]
   \<and> calls (execOperation demoBuilder constraintClient usersContext inTransaction opNoKeys)
       = calls inTransaction
   \<and> valid (validateOperation demoBuilder opDelete)
   \<and> buildQuery demoBuilder opDelete usersContext ''postgresql''
       = Inr \<lparr>sql = ''DELETE FROM users'', params = [JNum 50]\<rparr>
   \<and> buildPreviewSql demoBuilder opDelete usersContext ''postgresql'' = Inr ''DELETE FROM users''
   \<and> constraintClient [Connect, Query ''BEGIN'' []] (Query ''DELETE FROM users'' [JNum 50])
       = Inl ''violates foreign key constraint''
   \<and> errors (result (execOperation demoBuilder constraintClient usersContext
                        (runOperations demoBuilder constraintClient usersContext inTransaction [opNoKeys])
                        opDelete))
       = errors (result (runOperations demoBuilder constraintClient usersContext inTransaction [opNoKeys]))
           @ [\<lparr>operationId = ''op-2'', message = Some ''violates foreign key constraint''\<rparr>]
   \<and> runOperations demoBuilder constraintClient usersContext inTransaction [opNoKeys, opDelete, opInsert]
       = runOperations demoBuilder constraintClient usersContext
           (execOperation demoBuilder constraintClient usersContext
              (runOperations demoBuilder constraintClient usersContext inTransaction [opNoKeys]) opDelete)
           [opInsert]
   \<and> calls (runOperations demoBuilder constraintClient usersContext inTransaction [opNoKeys, opDelete, opInsert])
       = [Connect, Query ''BEGIN'' [], Query ''DELETE FROM users'' [JNum 50],
          Query ''INSERT INTO users'' [JStr ''Carl'']]
   \<and> errors (result (runOperations demoBuilder constraintClient usersContext inTransaction
                        [opNoKeys, opDelete, opInsert]))
       = [\<lparr>operationId = ''op-1'', message = Some ''Update requires primary key values''\<rparr>,
          \<lparr>operationId = ''op-2'', message = Some ''violates foreign key constraint''\<rparr>]"
proof -
  have hA: "[opNoKeys, opDelete, opInsert] = [] @ opNoKeys # [opDelete, opInsert]" by simp
  have hB: "[opNoKeys, opDelete, opInsert] = [opNoKeys] @ opDelete # [opInsert]" by simp
  have nil: "runOperations demoBuilder constraintClient usersContext inTransaction [] = inTransaction"
    by (rule runOperations_Nil)
  have v1: "\<not> valid (validateOperation demoBuilder opNoKeys)" by code_simp
  have i1: "op_id opNoKeys = ''op-1''
            \<and> error (validateOperation demoBuilder opNoKeys) = Some ''Update requires primary key values''"
    by code_simp
  have v2: "valid (validateOperation demoBuilder opDelete)" by code_simp
  have q: "buildQuery demoBuilder opDelete usersContext ''postgresql''
       = Inr \<lparr>sql = ''DELETE FROM users'', params = [JNum 50]\<rparr>"
    by code_simp
  have p: "buildPreviewSql demoBuilder opDelete usersContext ''postgresql'' = Inr ''DELETE FROM users''"
    by code_simp
  have cb: "calls (runOperations demoBuilder constraintClient usersContext inTransaction [opNoKeys])
              = [Connect, Query ''BEGIN'' []]"
    by code_simp
  have t: "constraintClient [Connect, Query ''BEGIN'' []] (Query ''DELETE FROM users'' [JNum 50])
       = Inl ''violates foreign key constraint''"
    by code_simp
  have i2: "op_id opDelete = ''op-2''" by code_simp
  have c: "calls (runOperations demoBuilder constraintClient usersContext inTransaction [opNoKeys, opDelete, opInsert])
       = [Connect, Query ''BEGIN'' [], Query ''DELETE FROM users'' [JNum 50],
          Query ''INSERT INTO users'' [JStr ''Carl'']]"
    by code_simp
  have e: "errors (result (runOperations demoBuilder constraintClient usersContext inTransaction
                        [opNoKeys, opDelete, opInsert]))
       = [\<lparr>operationId = ''op-1'', message = Some ''Update requires primary key values''\<rparr>,
          \<lparr>operationId = ''op-2'', message = Some ''violates foreign key constraint''\<rparr>]"
    by code_simp
  note A = operation_errors_do_not_stop_loop [OF hA refl refl refl,
      of demoBuilder constraintClient usersContext inTransaction]
  note B = operation_errors_do_not_stop_loop [OF hB refl refl refl,
      of demoBuilder constraintClient usersContext inTransaction]
  from A v1 have a: "calls (execOperation demoBuilder constraintClient usersContext inTransaction opNoKeys)
                      = calls inTransaction
     \<and> errors (result (execOperation demoBuilder constraintClient usersContext inTransaction opNoKeys))
         = errors (result inTransaction)
           @ [\<lparr>operationId = ''op-1'', message = Some ''Update requires primary key values''\<rparr>]"
    unfolding nil using i1 by simp
  from B have b1: "runOperations demoBuilder constraintClient usersContext inTransaction [opNoKeys, opDelete, opInsert]
       = runOperations demoBuilder constraintClient usersContext
           (execOperation demoBuilder constraintClient usersContext
              (runOperations demoBuilder constraintClient usersContext inTransaction [opNoKeys]) opDelete)
           [opInsert]" by blast
  have t': "constraintClient (calls (runOperations demoBuilder constraintClient usersContext inTransaction [opNoKeys]))
              (Query (sql \<lparr>sql = ''DELETE FROM users'', params = [JNum 50]\<rparr>)
                     (params \<lparr>sql = ''DELETE FROM users'', params = [JNum 50]\<rparr>))
            = Inl ''violates foreign key constraint''"
    using t cb by simp
  from B v2 q p t' have b2: "errors (result (execOperation demoBuilder constraintClient usersContext
                        (runOperations demoBuilder constraintClient usersContext inTransaction [opNoKeys])
                        opDelete))
       = errors (result (runOperations demoBuilder constraintClient usersContext inTransaction [opNoKeys]))
           @ [\<lparr>operationId = op_id opDelete, message = Some ''violates foreign key constraint''\<rparr>]"
    by blast
  from v1 a v2 q p t b2 [unfolded i2] b1 c e show ?thesis by (intro conjI) simp_all
qed

subsection \<open>The handler, case by case\<close>

lemma finishTransaction_ok:
  assumes "cl (calls st) (controlStatement st) = Inr r" and "success (result st)"
  shows "finishTransaction cl st =
           (Inr (), \<lparr>calls = calls st @ [controlStatement st],
                     result = (result st)\<lparr>success := (errors (result st) = [])\<rparr>\<rparr>)"
proof (cases "errors (result st) = []")
  case True
  with assms show ?thesis
    by (simp add: finishTransaction_def clientCall_def controlStatement_def)
next
  case False
  with assms show ?thesis
    by (simp add: finishTransaction_def clientCall_def controlStatement_def)
qed

lemma finishTransaction_fails:
  assumes "cl (calls st) (controlStatement st) = Inl e"
  shows "\<exists>st'. finishTransaction cl st = (Inl e, st') \<and> calls st' = calls st @ [controlStatement st]"
proof (cases "errors (result st) = []")
  case True
  with assms show ?thesis
    by (simp add: finishTransaction_def clientCall_def controlStatement_def)
next
  case False
  with assms show ?thesis
    by (simp add: finishTransaction_def clientCall_def controlStatement_def)
qed

lemma catch_block:
  "tryExecute sb cl batch = (Inl e, st) \<Longrightarrow>
   dbExecute sb cl batch = (IpcError e, calls st @ [Query ''ROLLBACK'' [], End])"
  by (simp add: dbExecute_def clientCall_def)

lemma dbExecute_connect_fails:
  assumes "cl [] Connect = Inl e"
  shows "dbExecute sb cl batch = (IpcError e, [Connect, Query ''ROLLBACK'' [], End])"
proof -
  have "tryExecute sb cl batch = (Inl e, \<lparr>calls = [Connect], result = initialResult\<rparr>)"
    using assms by (simp add: tryExecute_def clientCall_def)
  from catch_block [OF this] show ?thesis by simp
qed

lemma dbExecute_begin_fails:
  assumes "cl [] Connect = Inr r1" and "cl [Connect] (Query ''BEGIN'' []) = Inl e"
  shows "dbExecute sb cl batch = (IpcError e, [Connect, Query ''BEGIN'' [], Query ''ROLLBACK'' [], End])"
proof -
  have "tryExecute sb cl batch = (Inl e, \<lparr>calls = [Connect, Query ''BEGIN'' []], result = initialResult\<rparr>)"
    using assms by (simp add: tryExecute_def clientCall_def)
  from catch_block [OF this] show ?thesis by simp
qed

lemma tryExecute_in_transaction:
  assumes "cl [] Connect = Inr r1" and "cl [Connect] (Query ''BEGIN'' []) = Inr r2"
  shows "tryExecute sb cl batch =
     (case finishTransaction cl
             (runOperations sb cl (batch_context batch) inTransaction (batch_operations batch)) of
        (Inl e, st3) \<Rightarrow> (Inl e, st3)
      | (Inr u, st3) \<Rightarrow>
          (case clientCall cl End st3 of
             (Inl e, st4) \<Rightarrow> (Inl e, st4)
           | (Inr r4, st4) \<Rightarrow> (Inr (result st4), st4)))"
  using assms by (simp add: tryExecute_def clientCall_def inTransaction_def)

lemma dbExecute_control_fails:
  assumes "cl [] Connect = Inr r1" and "cl [Connect] (Query ''BEGIN'' []) = Inr r2"
    and "st = runOperations sb cl (batch_context batch) inTransaction (batch_operations batch)"
    and "cl (calls st) (controlStatement st) = Inl e"
  shows "dbExecute sb cl batch =
           (IpcError e, calls st @ [controlStatement st, Query ''ROLLBACK'' [], End])"
proof -
  from finishTransaction_fails [of cl st e, OF assms(4)] obtain st' where
    f: "finishTransaction cl st = (Inl e, st')" and c: "calls st' = calls st @ [controlStatement st]"
    by blast
  have "tryExecute sb cl batch = (Inl e, st')"
    using tryExecute_in_transaction [OF assms(1,2), of sb batch] f assms(3) by simp
  from catch_block [OF this] c show ?thesis by simp
qed

lemma dbExecute_end_fails:
  assumes "cl [] Connect = Inr r1" and "cl [Connect] (Query ''BEGIN'' []) = Inr r2"
    and "st = runOperations sb cl (batch_context batch) inTransaction (batch_operations batch)"
    and "cl (calls st) (controlStatement st) = Inr r3"
    and "cl (calls st @ [controlStatement st]) End = Inl e"
  shows "dbExecute sb cl batch =
           (IpcError e, calls st @ [controlStatement st, End, Query ''ROLLBACK'' [], End])"
proof -
  have s: "success (result st)" unfolding assms(3) by (rule inTransaction_success)
  note f = finishTransaction_ok [of cl st r3, OF assms(4) s]
  have "\<exists>st4. tryExecute sb cl batch = (Inl e, st4) \<and> calls st4 = calls st @ [controlStatement st, End]"
    using tryExecute_in_transaction [OF assms(1,2), of sb batch] f assms(3,5)
    by (simp add: clientCall_def)
  then obtain st4 where "tryExecute sb cl batch = (Inl e, st4)"
    and c: "calls st4 = calls st @ [controlStatement st, End]" by blast
  from catch_block [OF this(1)] c show ?thesis by simp
qed

lemma dbExecute_returns:
  assumes "cl [] Connect = Inr r1" and "cl [Connect] (Query ''BEGIN'' []) = Inr r2"
    and "st = runOperations sb cl (batch_context batch) inTransaction (batch_operations batch)"
    and "cl (calls st) (controlStatement st) = Inr r3"
    and "cl (calls st @ [controlStatement st]) End = Inr r4"
  shows "dbExecute sb cl batch =
           (IpcData ((result st)\<lparr>success := (errors (result st) = [])\<rparr>),
            calls st @ [controlStatement st, End])"
proof -
  have s: "success (result st)" unfolding assms(3) by (rule inTransaction_success)
  note f = finishTransaction_ok [of cl st r3, OF assms(4) s]
  have "tryExecute sb cl batch =
      (Inr ((result st)\<lparr>success := (errors (result st) = [])\<rparr>),
       \<lparr>calls = calls st @ [controlStatement st, End],
        result = (result st)\<lparr>success := (errors (result st) = [])\<rparr>\<rparr>)"
    using tryExecute_in_transaction [OF assms(1,2), of sb batch] f assms(3,5)
    by (simp add: clientCall_def)
  then show ?thesis by (simp add: dbExecute_def)
qed

lemma dbExecute_shape:
  assumes "cl [] Connect = Inr r1" and "cl [Connect] (Query ''BEGIN'' []) = Inr r2"
    and "st = runOperations sb cl (batch_context batch) inTransaction (batch_operations batch)"
  shows "(\<exists>rest. snd (dbExecute sb cl batch) = calls st @ controlStatement st # rest)
     \<and> (\<forall>r. fst (dbExecute sb cl batch) = IpcData r \<longrightarrow> r = (result st)\<lparr>success := (errors (result st) = [])\<rparr>)"
proof (cases "cl (calls st) (controlStatement st)")
  case (Inl e)
  have "dbExecute sb cl batch = (IpcError e, calls st @ [controlStatement st, Query ''ROLLBACK'' [], End])"
    using assms Inl by (rule dbExecute_control_fails)
  then show ?thesis by simp
next
  case (Inr r3)
  show ?thesis
  proof (cases "cl (calls st @ [controlStatement st]) End")
    case (Inl e)
    have "dbExecute sb cl batch =
           (IpcError e, calls st @ [controlStatement st, End, Query ''ROLLBACK'' [], End])"
      using assms Inr Inl by (rule dbExecute_end_fails)
    then show ?thesis by simp
  next
    case (Inr r4)
    have "dbExecute sb cl batch =
           (IpcData ((result st)\<lparr>success := (errors (result st) = [])\<rparr>),
            calls st @ [controlStatement st, End])"
      using assms \<open>cl (calls st) (controlStatement st) = Inr r3\<close> Inr by (rule dbExecute_returns)
    then show ?thesis by simp
  qed
qed

lemma dbExecute_ret:
  assumes "cl [] Connect = Inr r1" and "cl [Connect] (Query ''BEGIN'' []) = Inr r2"
    and "st = runOperations sb cl (batch_context batch) inTransaction (batch_operations batch)"
  shows "\<forall>r3 r4. cl (calls st) (controlStatement st) = Inr r3 \<longrightarrow>
          cl (calls st @ [controlStatement st]) End = Inr r4 \<longrightarrow>
          fst (dbExecute sb cl batch) = IpcData ((result st)\<lparr>success := (errors (result st) = [])\<rparr>)"
proof (intro allI impI)
  fix r3 r4
  assume a: "cl (calls st) (controlStatement st) = Inr r3"
    and b: "cl (calls st @ [controlStatement st]) End = Inr r4"
  have "dbExecute sb cl batch =
           (IpcData ((result st)\<lparr>success := (errors (result st) = [])\<rparr>),
            calls st @ [controlStatement st, End])"
    using assms a b by (rule dbExecute_returns)
  then show "fst (dbExecute sb cl batch) = IpcData ((result st)\<lparr>success := (errors (result st) = [])\<rparr>)"
    by simp
qed

lemma dbExecute_IpcData:
  assumes "fst (dbExecute sb cl batch) = IpcData r"
    and "st = runOperations sb cl (batch_context batch) inTransaction (batch_operations batch)"
  shows "r = (result st)\<lparr>success := (errors (result st) = [])\<rparr>"
proof (cases "cl [] Connect")
  case (Inl e)
  from dbExecute_connect_fails [of cl e sb batch, OF Inl] assms(1) show ?thesis by simp
next
  case (Inr r1)
  show ?thesis
  proof (cases "cl [Connect] (Query ''BEGIN'' [])")
    case (Inl e)
    from dbExecute_begin_fails [of cl r1 e sb batch, OF Inr Inl] assms(1) show ?thesis by simp
  next
    case (Inr r2)
    from dbExecute_shape [of cl r1 r2 st sb batch, OF \<open>cl [] Connect = Inr r1\<close> Inr assms(2)] assms(1)
    show ?thesis by blast
  qed
qed

subsection \<open>Commit or rollback\<close>

text \<open>
  Claim C1. Let \<^verbatim>\<open>connect\<close> and \<^verbatim>\<open>BEGIN\<close> return, and let \<open>st\<close> be the state in which
  the loop over the operations ends. If errors were collected, the next call on the client
  is \<^verbatim>\<open>ROLLBACK\<close>, and an \<^verbatim>\<open>EditResult\<close> that is returned has \<^verbatim>\<open>success = false\<close> and
  all the collected errors. If none was collected, the next call is \<^verbatim>\<open>COMMIT\<close>, and a
  returned \<^verbatim>\<open>EditResult\<close> has \<^verbatim>\<open>success = true\<close> and no errors. An \<^verbatim>\<open>EditResult\<close> is
  returned whenever that call and \<^verbatim>\<open>client.end()\<close> return.
\<close>

theorem commit_or_rollback_after_loop:
  assumes "cl [] Connect = Inr r1" and "cl [Connect] (Query ''BEGIN'' []) = Inr r2"
    and "st = runOperations sb cl (batch_context batch) inTransaction (batch_operations batch)"
  shows
   "(errors (result st) \<noteq> [] \<longrightarrow>
        (\<exists>rest. snd (dbExecute sb cl batch) = calls st @ Query ''ROLLBACK'' [] # rest)
      \<and> (\<forall>r. fst (dbExecute sb cl batch) = IpcData r \<longrightarrow> \<not> success r \<and> errors r = errors (result st)))
    \<and> (errors (result st) = [] \<longrightarrow>
        (\<exists>rest. snd (dbExecute sb cl batch) = calls st @ Query ''COMMIT'' [] # rest)
      \<and> (\<forall>r. fst (dbExecute sb cl batch) = IpcData r \<longrightarrow> success r \<and> errors r = []))
    \<and> (\<forall>r3 r4. cl (calls st) (controlStatement st) = Inr r3 \<longrightarrow>
          cl (calls st @ [controlStatement st]) End = Inr r4 \<longrightarrow>
          fst (dbExecute sb cl batch) = IpcData ((result st)\<lparr>success := (errors (result st) = [])\<rparr>))"
proof (intro conjI impI)
  note shape = dbExecute_shape [OF assms]
  {
    assume e: "errors (result st) \<noteq> []"
    then have c: "controlStatement st = Query ''ROLLBACK'' []" by (simp add: controlStatement_def)
    from shape show "\<exists>rest. snd (dbExecute sb cl batch) = calls st @ Query ''ROLLBACK'' [] # rest"
      unfolding c by (rule conjunct1)
    show "\<forall>r. fst (dbExecute sb cl batch) = IpcData r \<longrightarrow> \<not> success r \<and> errors r = errors (result st)"
    proof (intro allI impI)
      fix r assume "fst (dbExecute sb cl batch) = IpcData r"
      with shape have "r = (result st)\<lparr>success := (errors (result st) = [])\<rparr>" by blast
      with e show "\<not> success r \<and> errors r = errors (result st)" by simp
    qed
  }
  {
    assume e: "errors (result st) = []"
    then have c: "controlStatement st = Query ''COMMIT'' []" by (simp add: controlStatement_def)
    from shape show "\<exists>rest. snd (dbExecute sb cl batch) = calls st @ Query ''COMMIT'' [] # rest"
      unfolding c by (rule conjunct1)
    show "\<forall>r. fst (dbExecute sb cl batch) = IpcData r \<longrightarrow> success r \<and> errors r = []"
    proof (intro allI impI)
      fix r assume "fst (dbExecute sb cl batch) = IpcData r"
      with shape have "r = (result st)\<lparr>success := (errors (result st) = [])\<rparr>" by blast
      with e show "success r \<and> errors r = []" by simp
    qed
  }
  show "\<forall>r3 r4. cl (calls st) (controlStatement st) = Inr r3 \<longrightarrow>
          cl (calls st @ [controlStatement st]) End = Inr r4 \<longrightarrow>
          fst (dbExecute sb cl batch) = IpcData ((result st)\<lparr>success := (errors (result st) = [])\<rparr>)"
    by (rule dbExecute_ret [OF assms])
qed

theorem commit_or_rollback_after_loop_witness:
  "constraintClient [] Connect = Inr None
   \<and> constraintClient [Connect] (Query ''BEGIN'' []) = Inr None
   \<and> dbExecute demoBuilder constraintClient failingBatch =
       (IpcData \<lparr>success = False, rowsAffected = 1,
                 executedSql = [''DELETE FROM users'', ''INSERT INTO users''],
                 errors = [\<lparr>operationId = ''op-1'', message = Some ''Update requires primary key values''\<rparr>,
                           \<lparr>operationId = ''op-2'', message = Some ''violates foreign key constraint''\<rparr>]\<rparr>,
        [Connect, Query ''BEGIN'' [], Query ''DELETE FROM users'' [JNum 50],
         Query ''INSERT INTO users'' [JStr ''Carl''], Query ''ROLLBACK'' [], End])
   \<and> errors (result (runOperations demoBuilder constraintClient (batch_context failingBatch)
                        inTransaction (batch_operations failingBatch)))
       = [\<lparr>operationId = ''op-1'', message = Some ''Update requires primary key values''\<rparr>,
          \<lparr>operationId = ''op-2'', message = Some ''violates foreign key constraint''\<rparr>]
   \<and> okClient [] Connect = Inr None
   \<and> okClient [Connect] (Query ''BEGIN'' []) = Inr None
   \<and> errors (result (runOperations demoBuilder okClient (batch_context cleanBatch)
                        inTransaction (batch_operations cleanBatch))) = []
   \<and> dbExecute demoBuilder okClient cleanBatch =
       (IpcData \<lparr>success = True, rowsAffected = 2,
                 executedSql = [''DELETE FROM users'', ''INSERT INTO users''], errors = []\<rparr>,
        [Connect, Query ''BEGIN'' [], Query ''DELETE FROM users'' [JNum 50],
         Query ''INSERT INTO users'' [JStr ''Carl''], Query ''COMMIT'' [], End])"
proof -
  have h1: "constraintClient [] Connect = Inr None" by code_simp
  have h2: "constraintClient [Connect] (Query ''BEGIN'' []) = Inr None" by code_simp
  have e: "errors (result (runOperations demoBuilder constraintClient (batch_context failingBatch)
                             inTransaction (batch_operations failingBatch))) \<noteq> []"
    by code_simp
  have v: "dbExecute demoBuilder constraintClient failingBatch =
       (IpcData \<lparr>success = False, rowsAffected = 1,
                 executedSql = [''DELETE FROM users'', ''INSERT INTO users''],
                 errors = [\<lparr>operationId = ''op-1'', message = Some ''Update requires primary key values''\<rparr>,
                           \<lparr>operationId = ''op-2'', message = Some ''violates foreign key constraint''\<rparr>]\<rparr>,
        [Connect, Query ''BEGIN'' [], Query ''DELETE FROM users'' [JNum 50],
         Query ''INSERT INTO users'' [JStr ''Carl''], Query ''ROLLBACK'' [], End])"
    by code_simp
  from commit_or_rollback_after_loop [OF h1 h2 refl, of demoBuilder failingBatch] e
  have "\<forall>r. fst (dbExecute demoBuilder constraintClient failingBatch) = IpcData r \<longrightarrow>
          \<not> success r \<and>
          errors r = errors (result (runOperations demoBuilder constraintClient (batch_context failingBatch)
                                       inTransaction (batch_operations failingBatch)))"
    by blast
  with v have r: "errors (result (runOperations demoBuilder constraintClient (batch_context failingBatch)
                        inTransaction (batch_operations failingBatch)))
       = [\<lparr>operationId = ''op-1'', message = Some ''Update requires primary key values''\<rparr>,
          \<lparr>operationId = ''op-2'', message = Some ''violates foreign key constraint''\<rparr>]"
    by simp
  have k1: "okClient [] Connect = Inr None" by code_simp
  have k2: "okClient [Connect] (Query ''BEGIN'' []) = Inr None" by code_simp
  have n: "errors (result (runOperations demoBuilder okClient (batch_context cleanBatch)
                        inTransaction (batch_operations cleanBatch))) = []"
    by code_simp
  have cs: "calls (runOperations demoBuilder okClient (batch_context cleanBatch)
                        inTransaction (batch_operations cleanBatch))
            = [Connect, Query ''BEGIN'' [], Query ''DELETE FROM users'' [JNum 50],
               Query ''INSERT INTO users'' [JStr ''Carl'']]"
    by code_simp
  have rs: "result (runOperations demoBuilder okClient (batch_context cleanBatch)
                        inTransaction (batch_operations cleanBatch))
            = \<lparr>success = True, rowsAffected = 2,
                 executedSql = [''DELETE FROM users'', ''INSERT INTO users''], errors = []\<rparr>"
    by code_simp
  have w: "dbExecute demoBuilder okClient cleanBatch =
       (IpcData \<lparr>success = True, rowsAffected = 2,
                 executedSql = [''DELETE FROM users'', ''INSERT INTO users''], errors = []\<rparr>,
        [Connect, Query ''BEGIN'' [], Query ''DELETE FROM users'' [JNum 50],
         Query ''INSERT INTO users'' [JStr ''Carl''], Query ''COMMIT'' [], End])"
    by code_simp
  from commit_or_rollback_after_loop [OF k1 k2 refl, of demoBuilder cleanBatch] n
  have "\<exists>rest. snd (dbExecute demoBuilder okClient cleanBatch) =
          calls (runOperations demoBuilder okClient (batch_context cleanBatch)
                        inTransaction (batch_operations cleanBatch)) @ Query ''COMMIT'' [] # rest"
    by blast
  with h1 h2 v r k1 k2 n w show ?thesis by (intro conjI)
qed

subsection \<open>Fatal errors\<close>

text \<open>
  Claim C9. When \<^verbatim>\<open>connect\<close> throws, or \<^verbatim>\<open>BEGIN\<close> throws, or the \<^verbatim>\<open>COMMIT\<close> or
  \<^verbatim>\<open>ROLLBACK\<close> that follows the loop throws, the handler then calls \<^verbatim>\<open>ROLLBACK\<close> and
  \<^verbatim>\<open>end\<close> on the client and returns \<^verbatim>\<open>{success: false, error}\<close> with the message of the
  first exception, and no \<^verbatim>\<open>EditResult\<close>. Nothing is assumed of the client's answers to
  these last two calls: the response is the same when they throw.
\<close>

theorem fatal_errors_become_transport_failures:
  assumes "st = runOperations sb cl (batch_context batch) inTransaction (batch_operations batch)"
  shows
   "(cl [] Connect = Inl e \<longrightarrow>
       dbExecute sb cl batch = (IpcError e, [Connect, Query ''ROLLBACK'' [], End]))
    \<and> (cl [] Connect = Inr r1 \<longrightarrow> cl [Connect] (Query ''BEGIN'' []) = Inl e \<longrightarrow>
       dbExecute sb cl batch =
         (IpcError e, [Connect, Query ''BEGIN'' [], Query ''ROLLBACK'' [], End]))
    \<and> (cl [] Connect = Inr r1 \<longrightarrow> cl [Connect] (Query ''BEGIN'' []) = Inr r2 \<longrightarrow>
       cl (calls st) (controlStatement st) = Inl e \<longrightarrow>
       dbExecute sb cl batch =
         (IpcError e, calls st @ [controlStatement st, Query ''ROLLBACK'' [], End]))
    \<and> (controlStatement st = Query ''COMMIT'' [] \<or> controlStatement st = Query ''ROLLBACK'' [])"
proof (intro conjI impI)
  assume "cl [] Connect = Inl e"
  then show "dbExecute sb cl batch = (IpcError e, [Connect, Query ''ROLLBACK'' [], End])"
    by (rule dbExecute_connect_fails)
next
  assume "cl [] Connect = Inr r1" and "cl [Connect] (Query ''BEGIN'' []) = Inl e"
  then show "dbExecute sb cl batch =
         (IpcError e, [Connect, Query ''BEGIN'' [], Query ''ROLLBACK'' [], End])"
    by (rule dbExecute_begin_fails)
next
  assume "cl [] Connect = Inr r1" and "cl [Connect] (Query ''BEGIN'' []) = Inr r2"
    and "cl (calls st) (controlStatement st) = Inl e"
  with assms show "dbExecute sb cl batch =
         (IpcError e, calls st @ [controlStatement st, Query ''ROLLBACK'' [], End])"
    using dbExecute_control_fails [of cl r1 r2 st sb batch e] by blast
next
  show "controlStatement st = Query ''COMMIT'' [] \<or> controlStatement st = Query ''ROLLBACK'' []"
    by (simp add: controlStatement_def)
qed

theorem fatal_errors_become_transport_failures_witness:
  "brokenClient Connect [] Connect = Inl ''connection terminated''
   \<and> brokenClient Connect [Connect] (Query ''ROLLBACK'' []) = Inl ''not connected''
   \<and> dbExecute demoBuilder (brokenClient Connect) cleanBatch =
        (IpcError ''connection terminated'', [Connect, Query ''ROLLBACK'' [], End])
   \<and> brokenClient (Query ''BEGIN'' []) [Connect] (Query ''BEGIN'' []) = Inl ''connection terminated''
   \<and> dbExecute demoBuilder (brokenClient (Query ''BEGIN'' [])) cleanBatch =
        (IpcError ''connection terminated'', [Connect, Query ''BEGIN'' [], Query ''ROLLBACK'' [], End])
   \<and> controlStatement (runOperations demoBuilder (brokenClient (Query ''COMMIT'' []))
                          (batch_context cleanBatch) inTransaction (batch_operations cleanBatch))
        = Query ''COMMIT'' []
   \<and> dbExecute demoBuilder (brokenClient (Query ''COMMIT'' [])) cleanBatch =
        (IpcError ''connection terminated'',
         [Connect, Query ''BEGIN'' [], Query ''DELETE FROM users'' [JNum 50],
          Query ''INSERT INTO users'' [JStr ''Carl''], Query ''COMMIT'' [], Query ''ROLLBACK'' [], End])
   \<and> controlStatement (runOperations demoBuilder (brokenClient (Query ''ROLLBACK'' []))
                          (batch_context failingBatch) inTransaction (batch_operations failingBatch))
        = Query ''ROLLBACK'' []
   \<and> dbExecute demoBuilder (brokenClient (Query ''ROLLBACK'' [])) failingBatch =
        (IpcError ''connection terminated'',
         [Connect, Query ''BEGIN'' [], Query ''DELETE FROM users'' [JNum 50],
          Query ''INSERT INTO users'' [JStr ''Carl''], Query ''ROLLBACK'' [], Query ''ROLLBACK'' [], End])"
proof -
  have a1: "brokenClient Connect [] Connect = Inl ''connection terminated''" by code_simp
  have a2: "brokenClient Connect [Connect] (Query ''ROLLBACK'' []) = Inl ''not connected''" by code_simp
  have b1: "brokenClient (Query ''BEGIN'' []) [] Connect = Inr None" by code_simp
  have b2: "brokenClient (Query ''BEGIN'' []) [Connect] (Query ''BEGIN'' []) = Inl ''connection terminated''"
    by code_simp
  have c1: "brokenClient (Query ''COMMIT'' []) [] Connect = Inr None" by code_simp
  have c2: "brokenClient (Query ''COMMIT'' []) [Connect] (Query ''BEGIN'' []) = Inr None" by code_simp
  have c3: "controlStatement (runOperations demoBuilder (brokenClient (Query ''COMMIT'' []))
                          (batch_context cleanBatch) inTransaction (batch_operations cleanBatch))
        = Query ''COMMIT'' []" by code_simp
  have c4: "calls (runOperations demoBuilder (brokenClient (Query ''COMMIT'' []))
                          (batch_context cleanBatch) inTransaction (batch_operations cleanBatch))
        = [Connect, Query ''BEGIN'' [], Query ''DELETE FROM users'' [JNum 50],
           Query ''INSERT INTO users'' [JStr ''Carl'']]" by code_simp
  have c5: "brokenClient (Query ''COMMIT'' [])
              (calls (runOperations demoBuilder (brokenClient (Query ''COMMIT'' []))
                          (batch_context cleanBatch) inTransaction (batch_operations cleanBatch)))
              (controlStatement (runOperations demoBuilder (brokenClient (Query ''COMMIT'' []))
                          (batch_context cleanBatch) inTransaction (batch_operations cleanBatch)))
            = Inl ''connection terminated''" by code_simp
  have d1: "brokenClient (Query ''ROLLBACK'' []) [] Connect = Inr None" by code_simp
  have d2: "brokenClient (Query ''ROLLBACK'' []) [Connect] (Query ''BEGIN'' []) = Inr None" by code_simp
  have d3: "controlStatement (runOperations demoBuilder (brokenClient (Query ''ROLLBACK'' []))
                          (batch_context failingBatch) inTransaction (batch_operations failingBatch))
        = Query ''ROLLBACK'' []" by code_simp
  have d4: "calls (runOperations demoBuilder (brokenClient (Query ''ROLLBACK'' []))
                          (batch_context failingBatch) inTransaction (batch_operations failingBatch))
        = [Connect, Query ''BEGIN'' [], Query ''DELETE FROM users'' [JNum 50],
           Query ''INSERT INTO users'' [JStr ''Carl'']]" by code_simp
  have d5: "brokenClient (Query ''ROLLBACK'' [])
              (calls (runOperations demoBuilder (brokenClient (Query ''ROLLBACK'' []))
                          (batch_context failingBatch) inTransaction (batch_operations failingBatch)))
              (controlStatement (runOperations demoBuilder (brokenClient (Query ''ROLLBACK'' []))
                          (batch_context failingBatch) inTransaction (batch_operations failingBatch)))
            = Inl ''connection terminated''" by code_simp
  from fatal_errors_become_transport_failures
         [OF refl, of "brokenClient Connect" "''connection terminated''" demoBuilder cleanBatch] a1
  have e1: "dbExecute demoBuilder (brokenClient Connect) cleanBatch =
        (IpcError ''connection terminated'', [Connect, Query ''ROLLBACK'' [], End])" by blast
  from fatal_errors_become_transport_failures
         [OF refl, of "brokenClient (Query ''BEGIN'' [])" "''connection terminated''" demoBuilder
            cleanBatch None] b1 b2
  have e2: "dbExecute demoBuilder (brokenClient (Query ''BEGIN'' [])) cleanBatch =
        (IpcError ''connection terminated'', [Connect, Query ''BEGIN'' [], Query ''ROLLBACK'' [], End])"
    by blast
  from fatal_errors_become_transport_failures
         [OF refl, of "brokenClient (Query ''COMMIT'' [])" "''connection terminated''" demoBuilder
            cleanBatch None None] c1 c2 c5
  have "dbExecute demoBuilder (brokenClient (Query ''COMMIT'' [])) cleanBatch =
         (IpcError ''connection terminated'',
          calls (runOperations demoBuilder (brokenClient (Query ''COMMIT'' []))
                          (batch_context cleanBatch) inTransaction (batch_operations cleanBatch))
          @ [controlStatement (runOperations demoBuilder (brokenClient (Query ''COMMIT'' []))
                          (batch_context cleanBatch) inTransaction (batch_operations cleanBatch)),
             Query ''ROLLBACK'' [], End])"
    by blast
  then have e3: "dbExecute demoBuilder (brokenClient (Query ''COMMIT'' [])) cleanBatch =
        (IpcError ''connection terminated'',
         [Connect, Query ''BEGIN'' [], Query ''DELETE FROM users'' [JNum 50],
          Query ''INSERT INTO users'' [JStr ''Carl''], Query ''COMMIT'' [], Query ''ROLLBACK'' [], End])"
    unfolding c3 c4 by simp
  from fatal_errors_become_transport_failures
         [OF refl, of "brokenClient (Query ''ROLLBACK'' [])" "''connection terminated''" demoBuilder
            failingBatch None None] d1 d2 d5
  have "dbExecute demoBuilder (brokenClient (Query ''ROLLBACK'' [])) failingBatch =
         (IpcError ''connection terminated'',
          calls (runOperations demoBuilder (brokenClient (Query ''ROLLBACK'' []))
                          (batch_context failingBatch) inTransaction (batch_operations failingBatch))
          @ [controlStatement (runOperations demoBuilder (brokenClient (Query ''ROLLBACK'' []))
                          (batch_context failingBatch) inTransaction (batch_operations failingBatch)),
             Query ''ROLLBACK'' [], End])"
    by blast
  then have e4: "dbExecute demoBuilder (brokenClient (Query ''ROLLBACK'' [])) failingBatch =
        (IpcError ''connection terminated'',
         [Connect, Query ''BEGIN'' [], Query ''DELETE FROM users'' [JNum 50],
          Query ''INSERT INTO users'' [JStr ''Carl''], Query ''ROLLBACK'' [], Query ''ROLLBACK'' [], End])"
    unfolding d3 d4 by simp
  from a1 a2 e1 b2 e2 c3 e3 d3 e4 show ?thesis by (intro conjI)
qed

subsection \<open>The executed SQL\<close>

text \<open>
  Claim C8, as amended. In every \<^verbatim>\<open>EditResult\<close> the handler returns, \<^verbatim>\<open>executedSql\<close> is
  the list of the preview texts, bare strings without operation ids, of the valid
  operations for which \<^verbatim>\<open>buildQuery\<close> and \<^verbatim>\<open>buildPreviewSql\<close> both returned, in batch
  order.
\<close>

theorem executedSql_lists_preview_sql:
  assumes "fst (dbExecute sb cl batch) = IpcData r"
  shows "executedSql r = List.map_filter (synthesizedSql sb (batch_context batch)) (batch_operations batch)"
proof -
  from dbExecute_IpcData [OF assms refl]
  have "executedSql r = executedSql (result (runOperations sb cl (batch_context batch) inTransaction (batch_operations batch)))"
    by simp
  then show ?thesis
    by (simp add: runOperations_executedSql inTransaction_def initialResult_def)
qed

theorem executedSql_lists_preview_sql_witness:
  "fst (dbExecute demoBuilder constraintClient failingBatch) =
     IpcData \<lparr>success = False, rowsAffected = 1,
               executedSql = [''DELETE FROM users'', ''INSERT INTO users''],
               errors = [\<lparr>operationId = ''op-1'', message = Some ''Update requires primary key values''\<rparr>,
                         \<lparr>operationId = ''op-2'', message = Some ''violates foreign key constraint''\<rparr>]\<rparr>
   \<and> List.map_filter (synthesizedSql demoBuilder (batch_context failingBatch)) (batch_operations failingBatch)
       = [''DELETE FROM users'', ''INSERT INTO users'']"
proof -
  have h: "fst (dbExecute demoBuilder constraintClient failingBatch) =
     IpcData \<lparr>success = False, rowsAffected = 1,
               executedSql = [''DELETE FROM users'', ''INSERT INTO users''],
               errors = [\<lparr>operationId = ''op-1'', message = Some ''Update requires primary key values''\<rparr>,
                         \<lparr>operationId = ''op-2'', message = Some ''violates foreign key constraint''\<rparr>]\<rparr>"
    by code_simp
  from executedSql_lists_preview_sql [OF h] h show ?thesis by simp
qed

text \<open>
  Two batches that differ in the id of their one operation give the same \<^verbatim>\<open>EditResult\<close>:
  its \<^verbatim>\<open>executedSql\<close> holds the text alone, where the specification has the pairs
  \<open>(''op-a'', \<dots>)\<close> and \<open>(''op-b'', \<dots>)\<close>.
\<close>

theorem executedSql_without_operation_ids:
  "fst (dbExecute demoBuilder okClient deleteA) =
     IpcData \<lparr>success = True, rowsAffected = 1, executedSql = [''DELETE FROM users''], errors = []\<rparr>
   \<and> fst (dbExecute demoBuilder okClient deleteB) = fst (dbExecute demoBuilder okClient deleteA)
   \<and> executedSqlPairs demoBuilder usersContext (batch_operations deleteA) = [(''op-a'', ''DELETE FROM users'')]
   \<and> executedSqlPairs demoBuilder usersContext (batch_operations deleteB) = [(''op-b'', ''DELETE FROM users'')]"
  by code_simp

end
